theory Spec2Isabelle
  imports Main "HOL-Library.Word" "HOL-Library.Sublist" "HOL-Library.Code_Target_Nat"
begin

section \<open>The declarations the cursor walks\<close>

text \<open>
  \<^verbatim>\<open>TClingMethodInfo\<close> enumerates the function declarations of a scope of the
  Clang AST. The AST is owned by the compiler; the model keeps, for each kind of
  declaration, the answers to the queries that \<^verbatim>\<open>TClingMethodInfo.cxx\<close> asks of it.
\<close>

datatype access_specifier = AS_public | AS_protected | AS_private | AS_none

datatype storage_class = SC_None | SC_Extern | SC_Static | SC_PrivateExtern

datatype templated_kind =
  TK_NonTemplate | TK_FunctionTemplate | TK_MemberSpecialization
  | TK_FunctionTemplateSpecialization | TK_DependentFunctionTemplateSpecialization

text \<open>The dynamic class of a \<^verbatim>\<open>clang::FunctionDecl\<close>, as \<^verbatim>\<open>dyn_cast\<close> sees it.\<close>

datatype function_kind =
  Function | CXXMethod | CXXConstructor | CXXDestructor | CXXConversion

text \<open>
  A qualified type: each node carries its own \<^verbatim>\<open>const\<close> qualifier (the \<open>bool\<close>).
  \<open>UndeducedType\<close> is a return type written \<^verbatim>\<open>auto\<close> that is not deduced yet.
\<close>

datatype qual_type =
  NamedType bool string
  | UndeducedType bool
  | ArrayType bool qual_type
  | ReferenceType bool qual_type
  | PointerType bool qual_type
  | MemberPointerType bool qual_type

fun isConstQualified :: "qual_type \<Rightarrow> bool" where
  "isConstQualified (NamedType c _) = c"
| "isConstQualified (UndeducedType c) = c"
| "isConstQualified (ArrayType c _) = c"
| "isConstQualified (ReferenceType c _) = c"
| "isConstQualified (PointerType c _) = c"
| "isConstQualified (MemberPointerType c _) = c"

fun isUndeducedType :: "qual_type \<Rightarrow> bool" where
  "isUndeducedType (UndeducedType _) = True"
| "isUndeducedType _ = False"

text \<open>
  A function declaration. \<open>getNumParams\<close> and \<open>getMinRequiredArguments\<close> are
  \<^verbatim>\<open>unsigned\<close>; \<open>getCanonicalReturnType\<close> is \<^verbatim>\<open>getReturnType().getCanonicalType()\<close>;
  \<open>declContextIsNamespace\<close> is \<^verbatim>\<open>getDeclContext()->isNamespace()\<close>;
  \<open>declContextType\<close> is the type of the enclosing class when the declaration context is
  a \<^verbatim>\<open>TypeDecl\<close>; \<open>DeduceReturnType\<close> is the return type that
  \<^verbatim>\<open>Sema::DeduceReturnType\<close> leaves in the declaration when it succeeds.
\<close>

record function_decl =
  getNameAsString :: string
  getKind :: function_kind
  isDeleted :: bool
  isImplicit :: bool
  isConstexpr :: bool
  getAccess :: access_specifier
  declContextIsNamespace :: bool
  declContextType :: "qual_type option"
  getStorageClass :: storage_class
  getReturnType :: qual_type
  getCanonicalReturnType :: qual_type
  DeduceReturnType :: "qual_type option"
  getNumParams :: "32 word"
  getMinRequiredArguments :: "32 word"
  hasConstMethodQualifier :: bool
  isVirtual :: bool
  isPure :: bool
  isExplicit :: bool
  isOverloadedOperator :: bool
  isInlined :: bool
  getTemplatedKind :: templated_kind

definition isa_CXXMethodDecl :: "function_decl \<Rightarrow> bool" where
  "isa_CXXMethodDecl fd = (getKind fd \<noteq> Function)"

definition isa_CXXConstructorDecl :: "function_decl \<Rightarrow> bool" where
  "isa_CXXConstructorDecl fd = (getKind fd = CXXConstructor)"

definition isa_CXXDestructorDecl :: "function_decl \<Rightarrow> bool" where
  "isa_CXXDestructorDecl fd = (getKind fd = CXXDestructor)"

definition isa_CXXConversionDecl :: "function_decl \<Rightarrow> bool" where
  "isa_CXXConversionDecl fd = (getKind fd = CXXConversion)"

subsection \<open>Function templates\<close>

datatype template_parm_kind =
  TemplateTypeParmDecl | NonTypeTemplateParmDecl | TemplateTemplateParmDecl

record template_parm =
  parmKind :: template_parm_kind
  hasDefaultArgument :: bool
  isTemplateParameterPack :: bool

text \<open>
  What \<^verbatim>\<open>Sema::SubstType\<close> gives for one parameter type of the templated function
  once the default template arguments are substituted.
\<close>

datatype subst_result = SubstNull | SubstStillDependent | SubstResolved

record parm_var =
  isDependentType :: bool
  SubstType :: subst_result

text \<open>
  A function template: its template parameter list, the parameters of the function it
  declares, and \<open>findFunctionProto\<close>, the function that the scope-qualified lookup
  \<^verbatim>\<open>LookupHelper::findFunctionProto\<close> finds for the substituted parameter types.
\<close>

record function_template_decl =
  templateName :: string
  getTemplateParameters :: "template_parm list"
  containsUnexpandedParameterPack :: bool
  templateMinRequiredArguments :: nat
  templatedParameters :: "parm_var list"
  findFunctionProto :: "function_decl option"

subsection \<open>Using declarations and their shadows\<close>

text \<open>The target of a shadow declaration is any named declaration.\<close>

datatype named_decl = TargetFunction function_decl | TargetOther string

record using_shadow_decl =
  isConstructorUsingShadowDecl :: bool
  getTargetDecl :: named_decl

record using_decl =
  usingAccess :: access_specifier
  shadows :: "using_shadow_decl list"

subsection \<open>Declarations and declaration contexts\<close>

text \<open>
  \<open>NamespaceDecl tu inl ds\<close>: \<open>tu\<close> is \<^verbatim>\<open>getDeclContext()->isTranslationUnit()\<close>,
  \<open>inl\<close> is \<^verbatim>\<open>isInlineNamespace()\<close>, \<open>ds\<close> are the declarations inside. A declaration
  context is the list of its declarations in order; a \<^verbatim>\<open>decl_iterator\<close> is the list
  of the declarations from its position on, so the end iterator, which dereferences to
  null, is the empty list.
\<close>

datatype decl =
  FunctionDecl function_decl
  | FunctionTemplateDecl function_template_decl
  | UsingDecl using_decl
  | NamespaceDecl bool bool "decl list"
  | OtherDecl string

type_synonym decl_context = "decl list"
type_synonym decl_iterator = "decl list"

fun dyn_cast_FunctionDecl :: "named_decl \<Rightarrow> function_decl option" where
  "dyn_cast_FunctionDecl (TargetFunction fd) = Some fd"
| "dyn_cast_FunctionDecl (TargetOther _) = None"

definition dyn_cast_CXXMethodDecl :: "named_decl \<Rightarrow> function_decl option" where
  "dyn_cast_CXXMethodDecl d =
     (case dyn_cast_FunctionDecl d of
        Some fd \<Rightarrow> if isa_CXXMethodDecl fd then Some fd else None
      | None \<Rightarrow> None)"

definition dyn_cast_CXXConstructorDecl :: "named_decl \<Rightarrow> function_decl option" where
  "dyn_cast_CXXConstructorDecl d =
     (case dyn_cast_FunctionDecl d of
        Some fd \<Rightarrow> if isa_CXXConstructorDecl fd then Some fd else None
      | None \<Rightarrow> None)"

text \<open>
  The interpreter, as far as the cursor uses it: \<^verbatim>\<open>Sema::findInheritingConstructor\<close>
  returns the constructor of the current class that inherits a base constructor through
  a constructor shadow.
\<close>

record interpreter =
  findInheritingConstructor :: "function_decl \<Rightarrow> using_shadow_decl \<Rightarrow> function_decl"

section \<open>The iterator over the shadows of a using declaration\<close>

text \<open>
  \<^verbatim>\<open>TClingMethodInfo::UsingIterator\<close>. \<open>ui_fIter\<close> holds the shadows from the current
  position to \<^verbatim>\<open>fEnd\<close>, so \<^verbatim>\<open>fIter == fEnd\<close> is \<open>ui_fIter = []\<close>.
\<close>

record UsingIterator =
  ui_fInterp :: interpreter
  ui_fIter :: "using_shadow_decl list"

definition new_UsingIterator :: "interpreter \<Rightarrow> using_decl \<Rightarrow> UsingIterator" where
  "new_UsingIterator interp d = \<lparr> ui_fInterp = interp, ui_fIter = shadows d \<rparr>"

text \<open>\<^verbatim>\<open>operator*\<close>: the function the current shadow stands for, or null.\<close>

definition ui_deref :: "UsingIterator \<Rightarrow> function_decl option" where
  "ui_deref u =
     (case ui_fIter u of
        [] \<Rightarrow> None
      | s # _ \<Rightarrow>
          if isConstructorUsingShadowDecl s then
            (case dyn_cast_CXXConstructorDecl (getTargetDecl s) of
               Some base_ctor \<Rightarrow>
                 if isImplicit base_ctor then None
                 else Some (findInheritingConstructor (ui_fInterp u) base_ctor s)
             | None \<Rightarrow> dyn_cast_FunctionDecl (getTargetDecl s))
          else
            (case dyn_cast_CXXMethodDecl (getTargetDecl s) of
               Some method \<Rightarrow> Some method
             | None \<Rightarrow> dyn_cast_FunctionDecl (getTargetDecl s)))"

text \<open>\<^verbatim>\<open>operator bool\<close> and \<^verbatim>\<open>operator!\<close>.\<close>

definition ui_bool :: "UsingIterator \<Rightarrow> bool" where
  "ui_bool u = (ui_fIter u \<noteq> [])"

definition ui_not :: "UsingIterator \<Rightarrow> bool" where
  "ui_not u = (ui_fIter u = [])"

text \<open>
  \<^verbatim>\<open>operator++\<close>. The source never increments an iterator that is at its end; the
  model leaves such an iterator where it is.
\<close>

definition ui_incr :: "UsingIterator \<Rightarrow> UsingIterator" where
  "ui_incr u = u\<lparr>ui_fIter := (case ui_fIter u of [] \<Rightarrow> [] | _ # rest \<Rightarrow> rest)\<rparr>"

section \<open>The cursor\<close>

text \<open>
  The fields of \<^verbatim>\<open>TClingMethodInfo\<close>, with \<open>fDecl\<close> and \<open>fNameCache\<close> of its base
  class \<^verbatim>\<open>TClingDeclInfo\<close>. \<open>fIter\<close> is the position in the current declaration
  context. \<open>fContextIdx\<close> is an \<^verbatim>\<open>unsigned int\<close> that counts the contexts of
  \<open>fContexts\<close> already left behind: it starts at 0 and is only ever incremented, once
  per context and once more at the end, so it stays far from the wrap-around and is a
  natural number here. \<open>fAccessDecl\<close> is a \<^verbatim>\<open>clang::Decl*\<close> that only ever
  receives a using declaration.
\<close>

record cursor =
  fDecl :: "function_decl option"
  fNameCache :: string
  fInterp :: interpreter
  fContexts :: "decl_context list"
  fFirstTime :: bool
  fContextIdx :: nat
  fIter :: decl_iterator
  fTitle :: string
  fTemplateSpec :: "function_decl option"
  fUsingIter :: "UsingIterator option"
  fAccessDecl :: "using_decl option"

text \<open>
  What a failed \<^verbatim>\<open>assert\<close>, a failed \<^verbatim>\<open>llvm::cast\<close> or a call through a null
  pointer gives: the program stops.
\<close>

datatype error = NotAnIterator | CastFailed | NullDereference

subsection \<open>Instantiating a function template with its defaults\<close>

text \<open>
  \<^verbatim>\<open>GetOrInstantiateFuncTemplateWithDefaults\<close> opens with
  \<^verbatim>\<open>// NO!!\<close> and \<^verbatim>\<open>return nullptr;\<close>: it returns null for every template.
\<close>

definition GetOrInstantiateFuncTemplateWithDefaults ::
  "function_template_decl \<Rightarrow> function_decl option" where
  "GetOrInstantiateFuncTemplateWithDefaults FTDecl = None"

text \<open>
  The statements of that function after the \<^verbatim>\<open>return\<close>, which no call reaches: the
  template must have no unexpanded parameter pack and no required template argument, its
  first parameter must be a type or non-type parameter with a default, every parameter
  must have a default and none be a pack, every dependent parameter type must substitute
  to a non-dependent type; then the lookup decides.
\<close>

definition first_parm_rejected :: "template_parm list \<Rightarrow> bool" where
  "first_parm_rejected ps =
     (case ps of
        [] \<Rightarrow> False
      | arg0 # _ \<Rightarrow>
          if isTemplateParameterPack arg0 then True
          else (case parmKind arg0 of
                  TemplateTypeParmDecl \<Rightarrow> \<not> hasDefaultArgument arg0
                | NonTypeTemplateParmDecl \<Rightarrow> \<not> hasDefaultArgument arg0
                | TemplateTemplateParmDecl \<Rightarrow> True))"

fun default_args_rejected :: "template_parm list \<Rightarrow> bool" where
  "default_args_rejected [] = False"
| "default_args_rejected (p # ps) =
     (if isTemplateParameterPack p then True
      else if \<not> hasDefaultArgument p then True
      else default_args_rejected ps)"

fun parm_types_rejected :: "parm_var list \<Rightarrow> bool" where
  "parm_types_rejected [] = False"
| "parm_types_rejected (p # ps) =
     (if isDependentType p \<and> SubstType p \<noteq> SubstResolved then True
      else parm_types_rejected ps)"

definition unreached_instantiation ::
  "function_template_decl \<Rightarrow> function_decl option" where
  "unreached_instantiation FTDecl =
     (if containsUnexpandedParameterPack FTDecl then None
      else if templateMinRequiredArguments FTDecl > 0 then None
      else if first_parm_rejected (getTemplateParameters FTDecl) then None
      else if default_args_rejected (getTemplateParameters FTDecl) then None
      else if parm_types_rejected (templatedParameters FTDecl) then None
      else findFunctionProto FTDecl)"

subsection \<open>\<^verbatim>\<open>InternalNext\<close>\<close>

text \<open>
  A piece of the body of \<^verbatim>\<open>InternalNext\<close> either returns from the function with a
  result, or falls through to the statement after it.
\<close>

datatype flow = Return int cursor | Fallthrough cursor

text \<open>\<^verbatim>\<open>++fIter\<close>; the source never increments the end iterator.\<close>

definition incr :: "decl_iterator \<Rightarrow> decl_iterator" where
  "incr it = (case it of [] \<Rightarrow> [] | _ # rest \<Rightarrow> rest)"

text \<open>
  \<^verbatim>\<open>while (++(*fUsingIter)) { if (*(*fUsingIter)) return 1; }\<close>: the position
  where the loop leaves the iterator. It returned 1 exactly when that position is not the
  end.
\<close>

function using_loop :: "UsingIterator \<Rightarrow> UsingIterator" where
  "using_loop u =
     (let u' = ui_incr u in
      if ui_bool u' then (if ui_deref u' \<noteq> None then u' else using_loop u')
      else u')"
  by pat_completeness auto
termination
  by (relation "measure (\<lambda>u. length (ui_fIter u))")
     (auto simp: ui_incr_def ui_bool_def split: list.splits)

declare using_loop.simps [simp del]

text \<open>The step to the next declaration, at the head of the outer loop.\<close>

definition advance :: "cursor \<Rightarrow> flow" where
  "advance c =
     (if fFirstTime c then Fallthrough (c\<lparr>fFirstTime := False\<rparr>)
      else
        (case fUsingIter c of
           Some u \<Rightarrow>
             if ui_bool u then
               (let u' = using_loop u in
                if ui_bool u' then Return 1 (c\<lparr>fUsingIter := Some u'\<rparr>)
                else Fallthrough
                  (c\<lparr>fUsingIter := None, fAccessDecl := None, fIter := incr (fIter c)\<rparr>))
             else Fallthrough (c\<lparr>fIter := incr (fIter c)\<rparr>)
         | None \<Rightarrow> Fallthrough (c\<lparr>fIter := incr (fIter c)\<rparr>)))"

text \<open>
  \<^verbatim>\<open>while (!*fIter) { ... }\<close>: past the end of a context, go to the next context
  of \<open>fContexts\<close>, or return 0 when there is none.
\<close>

function fix_context :: "cursor \<Rightarrow> flow" where
  "fix_context c =
     (if fIter c \<noteq> [] then Fallthrough c
      else
        (let c' = c\<lparr>fContextIdx := fContextIdx c + 1\<rparr> in
         if fContextIdx c' \<ge> length (fContexts c') then Return 0 c'
         else fix_context (c'\<lparr>fIter := fContexts c' ! fContextIdx c'\<rparr>)))"
  by pat_completeness auto
termination
  by (relation "measure (\<lambda>c. length (fContexts c) - fContextIdx c)") auto

declare fix_context.simps [simp del]

text \<open>
  The classification of the declaration at \<open>fIter\<close>. The loop reaches it only with
  \<open>fIter\<close> on a declaration.
\<close>

definition classify :: "cursor \<Rightarrow> flow" where
  "classify c =
     (case fIter c of
        [] \<Rightarrow> Fallthrough c
      | cur_decl # _ \<Rightarrow>
          (let c1 =
             (case cur_decl of
                FunctionTemplateDecl templateDecl \<Rightarrow>
                  (let spec = GetOrInstantiateFuncTemplateWithDefaults templateDecl;
                       spec' = (case spec of
                                  Some fd \<Rightarrow> if isDeleted fd then None else Some fd
                                | None \<Rightarrow> None)
                   in c\<lparr>fTemplateSpec := spec'\<rparr>)
              | _ \<Rightarrow> c)
           in
           if (case cur_decl of FunctionTemplateDecl _ \<Rightarrow> fTemplateSpec c1 \<noteq> None
               | _ \<Rightarrow> False)
           then Return 1 c1
           else
             (case cur_decl of
                UsingDecl udecl \<Rightarrow>
                  Return 1 (c1\<lparr>fAccessDecl := Some udecl,
                                fUsingIter := Some (new_UsingIterator (fInterp c1) udecl)\<rparr>)
              | FunctionDecl FD \<Rightarrow>
                  if \<not> isDeleted FD then Return 1 c1 else Fallthrough c1
              | NamespaceDecl tu inl ds \<Rightarrow>
                  if tu \<and> inl then Fallthrough (c1\<lparr>fContexts := fContexts c1 @ [ds]\<rparr>)
                  else Fallthrough c1
              | _ \<Rightarrow> Fallthrough c1)))"

text \<open>
  The declarations still ahead of a cursor: the weight of \<open>fIter\<close> and of the contexts
  after \<open>fContextIdx\<close>. A namespace weighs more than its content, which it may add to
  \<open>fContexts\<close>.
\<close>

fun decl_weight :: "decl \<Rightarrow> nat" where
  "decl_weight (NamespaceDecl tu inl ds) = Suc (sum_list (map decl_weight ds))"
| "decl_weight _ = 1"

definition context_weight :: "decl_context \<Rightarrow> nat" where
  "context_weight ds = sum_list (map decl_weight ds)"

definition ahead :: "cursor \<Rightarrow> nat" where
  "ahead c =
     context_weight (fIter c)
     + sum_list (map context_weight (drop (Suc (fContextIdx c)) (fContexts c)))"

definition loop_measure :: "cursor \<Rightarrow> nat" where
  "loop_measure c =
     (if fFirstTime c then Suc (ahead c) else ahead (c\<lparr>fIter := incr (fIter c)\<rparr>))"

text \<open>
  Each turn of the outer loop of \<^verbatim>\<open>InternalNext\<close> that does not return leaves
  fewer declarations ahead: this is why the loop ends.
\<close>

lemma fix_context_ahead:
  "fix_context c = Fallthrough c3 \<Longrightarrow>
     ahead c3 = ahead c \<and> fIter c3 \<noteq> [] \<and> fFirstTime c3 = fFirstTime c"
proof (induction c rule: fix_context.induct)
  case (1 c)
  show ?case
  proof (cases "fIter c \<noteq> []")
    case True
    with "1.prems" show ?thesis by (simp add: fix_context.simps)
  next
    case False
    let ?c' = "c\<lparr>fContextIdx := fContextIdx c + 1\<rparr>"
    from False "1.prems" have lt: "fContextIdx c + 1 < length (fContexts c)"
      by (subst (asm) fix_context.simps) (auto simp: Let_def split: if_splits)
    let ?c'' = "?c'\<lparr>fIter := fContexts ?c' ! fContextIdx ?c'\<rparr>"
    from False "1.prems" lt have r: "fix_context ?c'' = Fallthrough c3"
      by (subst (asm) fix_context.simps) (simp add: Let_def)
    have "ahead c3 = ahead ?c'' \<and> fIter c3 \<noteq> [] \<and> fFirstTime c3 = fFirstTime ?c''"
      using "1.IH" [OF _ refl _ r] False lt by simp
    moreover have "ahead ?c'' = ahead c"
      using False lt by (simp add: ahead_def context_weight_def flip: Cons_nth_drop_Suc)
    ultimately show ?thesis by simp
  qed
qed

lemma advance_ahead:
  "advance c = Fallthrough c2 \<Longrightarrow>
     \<not> fFirstTime c2 \<and> loop_measure c = ahead c2 + (if fFirstTime c then 1 else 0)"
  by (auto simp: advance_def loop_measure_def ahead_def Let_def
           split: if_splits option.splits)

lemma sum_drop_snoc:
  "sum_list (map f (drop n (xs @ [y]))) \<le> sum_list (map f (drop n xs)) + (f y :: nat)"
  by (cases "n \<le> length xs") auto

lemma classify_ahead:
  assumes k: "classify c3 = Fallthrough c4" and ne: "fIter c3 \<noteq> []"
    and nf: "\<not> fFirstTime c3"
  shows "loop_measure c4 < ahead c3"
proof -
  from ne obtain d rest where it: "fIter c3 = d # rest" by (cases "fIter c3") auto
  have same: "c4 = c3 \<Longrightarrow> ?thesis"
    using it nf by (cases d) (simp_all add: loop_measure_def ahead_def incr_def context_weight_def)
  show ?thesis
  proof (cases d)
    case (NamespaceDecl tu inl ds)
    show ?thesis
    proof (cases "tu \<and> inl")
      case True
      with k it NamespaceDecl have c4: "c4 = c3\<lparr>fContexts := fContexts c3 @ [ds]\<rparr>"
        by (simp add: classify_def)
      have "sum_list (map context_weight (drop (Suc (fContextIdx c3)) (fContexts c3 @ [ds])))
            \<le> sum_list (map context_weight (drop (Suc (fContextIdx c3)) (fContexts c3)))
              + context_weight ds"
        by (rule sum_drop_snoc)
      then show ?thesis
        using it nf NamespaceDecl
        by (simp add: c4 loop_measure_def ahead_def incr_def context_weight_def)
    next
      case False
      with k it NamespaceDecl have "c4 = c3" by (auto simp: classify_def)
      then show ?thesis by (rule same)
    qed
  next
    case (FunctionDecl fd)
    with k it have "c4 = c3" by (auto simp: classify_def split: if_splits)
    then show ?thesis by (rule same)
  next
    case (FunctionTemplateDecl t)
    with k it have "c4 = c3\<lparr>fTemplateSpec := None\<rparr>"
      by (auto simp: classify_def GetOrInstantiateFuncTemplateWithDefaults_def)
    then show ?thesis
      using it nf FunctionTemplateDecl
      by (simp add: loop_measure_def ahead_def incr_def context_weight_def)
  next
    case (UsingDecl u)
    with k it show ?thesis by (simp add: classify_def)
  next
    case (OtherDecl x)
    with k it have "c4 = c3" by (auto simp: classify_def)
    then show ?thesis by (rule same)
  qed
qed

text \<open>The outer \<^verbatim>\<open>while (true)\<close> loop.\<close>

function InternalNext_loop :: "cursor \<Rightarrow> int \<times> cursor" where
  "InternalNext_loop c =
     (case advance (c\<lparr>fTemplateSpec := None\<rparr>) of
        Return r c' \<Rightarrow> (r, c')
      | Fallthrough c2 \<Rightarrow>
          (case fix_context c2 of
             Return r c' \<Rightarrow> (r, c')
           | Fallthrough c3 \<Rightarrow>
               (case classify c3 of
                  Return r c' \<Rightarrow> (r, c')
                | Fallthrough c4 \<Rightarrow> InternalNext_loop c4)))"
  by pat_completeness auto
termination
proof (relation "measure loop_measure")
  show "wf (measure loop_measure)" by simp
next
  fix c c2 c3 c4
  assume a: "advance (c\<lparr>fTemplateSpec := None\<rparr>) = Fallthrough c2"
    and f: "fix_context c2 = Fallthrough c3"
    and k: "classify c3 = Fallthrough c4"
  from advance_ahead [OF a] have 1: "\<not> fFirstTime c2" "ahead c2 \<le> loop_measure (c\<lparr>fTemplateSpec := None\<rparr>)"
    by auto
  from fix_context_ahead [OF f] 1 have 2: "ahead c3 = ahead c2" "fIter c3 \<noteq> []" "\<not> fFirstTime c3"
    by auto
  from classify_ahead [OF k 2(2) 2(3)] have "loop_measure c4 < ahead c3" .
  moreover have "loop_measure (c\<lparr>fTemplateSpec := None\<rparr>) = loop_measure c"
    by (simp add: loop_measure_def ahead_def)
  ultimately show "(c4, c) \<in> measure loop_measure" using 1 2 by simp
qed

declare InternalNext_loop.simps [simp del]

text \<open>
  \<^verbatim>\<open>InternalNext\<close>: the assertion that the cursor is an iterator, the cleared name
  cache, the early return of an iterator that is already at the end, then the loop.
  \<^verbatim>\<open>Next\<close> only calls it.
\<close>

definition InternalNext :: "cursor \<Rightarrow> error + int \<times> cursor" where
  "InternalNext c =
     (if fDecl c \<noteq> None then Inl NotAnIterator
      else
        (let c0 = c\<lparr>fNameCache := []\<rparr> in
         if \<not> fFirstTime c0 \<and> fIter c0 = [] then Inr (0, c0)
         else Inr (InternalNext_loop c0)))"

definition Next :: "cursor \<Rightarrow> error + int \<times> cursor" where
  "Next c = InternalNext c"

subsection \<open>Construction\<close>

text \<open>
  A \<^verbatim>\<open>TClingClassInfo\<close>, as the constructor uses it: whether it is valid, the
  declarations of its declaration context once the implicit members are declared, and
  what \<^verbatim>\<open>collectAllContexts\<close> collects.
\<close>

record TClingClassInfo =
  ci_IsValid :: bool
  ci_decls :: decl_context
  ci_collectAllContexts :: "decl_context list"

definition initial_cursor :: "interpreter \<Rightarrow> function_decl option \<Rightarrow> cursor" where
  "initial_cursor interp d =
     \<lparr> fDecl = d, fNameCache = [], fInterp = interp, fContexts = [], fFirstTime = True,
       fContextIdx = 0, fIter = [], fTitle = [], fTemplateSpec = None, fUsingIter = None,
       fAccessDecl = None \<rparr>"

text \<open>The cursor over the methods of a class or namespace.\<close>

definition TClingMethodInfo_of_class ::
  "interpreter \<Rightarrow> TClingClassInfo option \<Rightarrow> error + cursor" where
  "TClingMethodInfo_of_class interp ci =
     (case ci of
        None \<Rightarrow> Inr (initial_cursor interp None)
      | Some ci \<Rightarrow>
          if \<not> ci_IsValid ci then Inr (initial_cursor interp None)
          else
            (case InternalNext ((initial_cursor interp None)
                     \<lparr>fContexts := ci_collectAllContexts ci, fIter := ci_decls ci\<rparr>) of
               Inl e \<Rightarrow> Inl e
             | Inr (r, c) \<Rightarrow> Inr (c\<lparr>fFirstTime := True\<rparr>)))"

text \<open>The cursor fixed on one function declaration; it is not an iterator.\<close>

definition TClingMethodInfo_of_function ::
  "interpreter \<Rightarrow> function_decl option \<Rightarrow> cursor" where
  "TClingMethodInfo_of_function interp FD = initial_cursor interp FD"

subsection \<open>The current declaration\<close>

text \<open>
  \<^verbatim>\<open>GetDecl\<close> returns the declaration a fixed cursor was built on (\<open>fDecl\<close>, which
  the base class keeps) and asks \<^verbatim>\<open>GetDeclSlow\<close> otherwise: the specialization if one
  is held, else what the using iterator stands on if there is one, else the declaration
  at \<open>fIter\<close>.
\<close>

definition GetDeclSlow :: "cursor \<Rightarrow> decl option" where
  "GetDeclSlow c =
     (case fTemplateSpec c of
        Some spec \<Rightarrow> Some (FunctionDecl spec)
      | None \<Rightarrow>
          (case fUsingIter c of
             Some u \<Rightarrow> if ui_not u then None else map_option FunctionDecl (ui_deref u)
           | None \<Rightarrow> (case fIter c of [] \<Rightarrow> None | d # _ \<Rightarrow> Some d)))"

definition GetDecl :: "cursor \<Rightarrow> decl option" where
  "GetDecl c =
     (case fDecl c of
        Some SingleDecl \<Rightarrow> Some (FunctionDecl SingleDecl)
      | None \<Rightarrow> GetDeclSlow c)"

text \<open>
  Modelled from the spec: \<^verbatim>\<open>IsValid\<close> of the base class \<^verbatim>\<open>TClingDeclInfo\<close>, whose
  header is not among the sources. A cursor is invalid when it has no current
  declaration.
\<close>

definition IsValid :: "cursor \<Rightarrow> bool" where
  "IsValid c = (GetDecl c \<noteq> None)"

text \<open>\<^verbatim>\<open>cast_or_null<FunctionDecl>(GetDecl())\<close>.\<close>

definition GetMethodDecl :: "cursor \<Rightarrow> error + function_decl option" where
  "GetMethodDecl c =
     (case GetDecl c of
        None \<Rightarrow> Inr None
      | Some (FunctionDecl fd) \<Rightarrow> Inr (Some fd)
      | Some _ \<Rightarrow> Inl CastFailed)"

section \<open>The queries on the current declaration\<close>

text \<open>
  \<^verbatim>\<open>NArg\<close> and \<^verbatim>\<open>NDefaultArg\<close> compute in \<^verbatim>\<open>unsigned\<close> and cast the result to
  \<^verbatim>\<open>int\<close>: 32-bit words, subtraction that wraps, read as two's complement.
\<close>

definition NArg :: "cursor \<Rightarrow> error + int" where
  "NArg c =
     (if \<not> IsValid c then Inr (- 1)
      else
        (case GetMethodDecl c of
           Inl e \<Rightarrow> Inl e
         | Inr None \<Rightarrow> Inl NullDereference
         | Inr (Some fd) \<Rightarrow>
             (let num_params = getNumParams fd in Inr (sint num_params))))"

definition NDefaultArg :: "cursor \<Rightarrow> error + int" where
  "NDefaultArg c =
     (if \<not> IsValid c then Inr (- 1)
      else
        (case GetMethodDecl c of
           Inl e \<Rightarrow> Inl e
         | Inr None \<Rightarrow> Inl NullDereference
         | Inr (Some fd) \<Rightarrow>
             (let num_params = getNumParams fd;
                  min_args = getMinRequiredArguments fd;
                  defaulted_params = num_params - min_args
              in Inr (sint defaulted_params))))"

text \<open>
  The property masks. The enumerators are declared in \<^verbatim>\<open>TDictionary.h\<close>, which is not
  among the sources, so their bit values are not known here: a mask is the set of the
  enumerators or-ed into it, and the empty mask \<^verbatim>\<open>0L\<close> is the empty set.
\<close>

datatype EProperty =
  kIsCompiled | kIsConstexpr | kIsPublic | kIsProtected | kIsPrivate | kIsStatic
  | kIsConstant | kIsReference | kIsPointer | kIsConstPointer | kIsConstMethod
  | kIsVirtual | kIsPureVirtual | kIsExplicit

datatype EFunctionProperty =
  kIsOperator | kIsConversion | kIsConstructor | kIsDestructor | kIsInlined
  | kIsTemplateSpec

text \<open>
  The \<^verbatim>\<open>while (1)\<close> loop of \<^verbatim>\<open>Property\<close> over the canonical return type: it takes
  arrays, references, pointers and member pointers off the type and notes what it met.
\<close>

fun strip_return_type :: "qual_type \<Rightarrow> EProperty set \<Rightarrow> qual_type \<times> EProperty set" where
  "strip_return_type (ArrayType c elt) property = strip_return_type elt property"
| "strip_return_type (ReferenceType c pointee) property =
     strip_return_type pointee (insert kIsReference property)"
| "strip_return_type (PointerType c pointee) property =
     strip_return_type pointee
       ((if c then {kIsConstPointer} else {}) \<union> insert kIsPointer property)"
| "strip_return_type (MemberPointerType c pointee) property =
     strip_return_type pointee property"
| "strip_return_type qt property = (qt, property)"

text \<open>The \<^verbatim>\<open>switch (accessdecl->getAccess())\<close> of \<^verbatim>\<open>Property\<close>.\<close>

definition access_property :: "access_specifier \<Rightarrow> function_decl \<Rightarrow> EProperty set" where
  "access_property a fd =
     (case a of
        AS_public \<Rightarrow> {kIsPublic}
      | AS_protected \<Rightarrow> {kIsProtected}
      | AS_private \<Rightarrow> {kIsPrivate}
      | AS_none \<Rightarrow> if declContextIsNamespace fd then {kIsPublic} else {})"

text \<open>The part of \<^verbatim>\<open>Property\<close> under \<^verbatim>\<open>dyn_cast<CXXMethodDecl>(fd)\<close>.\<close>

definition method_property :: "function_decl \<Rightarrow> EProperty set" where
  "method_property md =
     (if hasConstMethodQualifier md then {kIsConstant, kIsConstMethod} else {})
     \<union> (if isVirtual md then {kIsVirtual} else {})
     \<union> (if isPure md then {kIsPureVirtual} else {})
     \<union> (if isa_CXXConstructorDecl md then (if isExplicit md then {kIsExplicit} else {})
         else if isa_CXXConversionDecl md then (if isExplicit md then {kIsExplicit} else {})
         else {})"

definition Property :: "cursor \<Rightarrow> error + EProperty set" where
  "Property c =
     (if \<not> IsValid c then Inr {}
      else
        (case GetMethodDecl c of
           Inl e \<Rightarrow> Inl e
         | Inr None \<Rightarrow> Inl NullDereference
         | Inr (Some fd) \<Rightarrow>
             if isDeleted fd then Inr {}
             else
               (let property = {kIsCompiled};
                    property = property \<union> (if isConstexpr fd then {kIsConstexpr} else {});
                    access = (case fAccessDecl c of
                                Some accessdecl \<Rightarrow> usingAccess accessdecl
                              | None \<Rightarrow> getAccess fd);
                    property = property \<union> access_property access fd;
                    property = property
                      \<union> (if getStorageClass fd = SC_Static then {kIsStatic} else {});
                    qt = getCanonicalReturnType fd;
                    property = property \<union> (if isConstQualified qt then {kIsConstant} else {});
                    (qt, property) = strip_return_type qt property;
                    property = property \<union> (if isConstQualified qt then {kIsConstant} else {});
                    property = property
                      \<union> (if isa_CXXMethodDecl fd then method_property fd else {})
                in Inr property)))"

definition ExtraProperty :: "cursor \<Rightarrow> error + EFunctionProperty set" where
  "ExtraProperty c =
     (if \<not> IsValid c then Inr {}
      else
        (case GetMethodDecl c of
           Inl e \<Rightarrow> Inl e
         | Inr None \<Rightarrow> Inl NullDereference
         | Inr (Some fd) \<Rightarrow>
             if isDeleted fd then Inr {}
             else Inr
               ((if isOverloadedOperator fd then {kIsOperator} else {})
                \<union> (if isa_CXXConversionDecl fd then {kIsConversion} else {})
                \<union> (if isa_CXXConstructorDecl fd then {kIsConstructor} else {})
                \<union> (if isa_CXXDestructorDecl fd then {kIsDestructor} else {})
                \<union> (if isInlined fd then {kIsInlined} else {})
                \<union> (if getTemplatedKind fd \<noteq> TK_NonTemplate then {kIsTemplateSpec} else {}))))"

text \<open>
  \<^verbatim>\<open>Type\<close> fills a thread-local \<^verbatim>\<open>TClingTypeInfo\<close> and returns its address. \<open>ti\<close>
  is the type that object holds before the call, the result the type it holds after;
  \<open>None\<close> is the null type \<^verbatim>\<open>clang::QualType()\<close>. For a constructor whose context
  is no type declaration the source reports an error and leaves the object as it was.
\<close>

definition Type :: "qual_type option \<Rightarrow> cursor \<Rightarrow> error + qual_type option" where
  "Type ti c =
     (if \<not> IsValid c then Inr None
      else
        (case GetMethodDecl c of
           Inl e \<Rightarrow> Inl e
         | Inr None \<Rightarrow> Inl NullDereference
         | Inr (Some fd) \<Rightarrow>
             if isa_CXXConstructorDecl fd then
               (case declContextType fd of
                  None \<Rightarrow> Inr ti
                | Some qt \<Rightarrow> Inr (Some qt))
             else
               (let qt = getReturnType fd in
                if isUndeducedType qt then
                  (case DeduceReturnType fd of
                     Some deduced \<Rightarrow> Inr (Some deduced)
                   | None \<Rightarrow> Inr (Some qt))
                else Inr (Some qt))))"

text \<open>
  \<^verbatim>\<open>GetMangledName\<close>. The mangler \<^verbatim>\<open>maybeMangleDeclName\<close> belongs to the
  interpreter and is a parameter; it receives the declaration with the constructor or
  destructor variant the source selects.
\<close>

datatype global_decl =
  GlobalDecl function_decl
  | GlobalDecl_Ctor_Complete function_decl
  | GlobalDecl_Dtor_Deleting function_decl

definition GetMangledName :: "(global_decl \<Rightarrow> string) \<Rightarrow> cursor \<Rightarrow> error + string" where
  "GetMangledName maybeMangleDeclName c =
     (if \<not> IsValid c then Inr []
      else
        (case GetMethodDecl c of
           Inl e \<Rightarrow> Inl e
         | Inr None \<Rightarrow> Inl NullDereference
         | Inr (Some D) \<Rightarrow>
             (let GD = (if isa_CXXConstructorDecl D then GlobalDecl_Ctor_Complete D
                        else if isa_CXXDestructorDecl D then GlobalDecl_Dtor_Deleting D
                        else GlobalDecl D)
              in Inr (maybeMangleDeclName GD))))"

section \<open>The snapshot of the reflection data\<close>

text \<open>
  \<^verbatim>\<open>rootclingIO.cxx\<close> collects names in global vectors and, at the end, writes the
  reflection data of the named classes, typedefs and enums into a file.
\<close>

record globals =
  gPCMFilename :: string
  gClassesToStore :: "string list"
  gTypedefsToStore :: "string list"
  gEnumsToStore :: "string list"
  gAncestorPCMNames :: "string list"

definition InitializeStreamerInfoROOTFile :: "globals \<Rightarrow> string \<Rightarrow> globals" where
  "InitializeStreamerInfoROOTFile g filename = g\<lparr>gPCMFilename := filename\<rparr>"

text \<open>
  \<^verbatim>\<open>normName\<close> is a \<^verbatim>\<open>const char*\<close>: \<open>None\<close> is the null pointer, and
  \<^verbatim>\<open>normName[0]\<close> is zero exactly for the empty string.
\<close>

definition AddStreamerInfoToROOTFile :: "globals \<Rightarrow> string option \<Rightarrow> globals" where
  "AddStreamerInfoToROOTFile g normName =
     (case normName of
        None \<Rightarrow> g
      | Some [] \<Rightarrow> g
      | Some (ch # rest) \<Rightarrow>
          if ch \<noteq> CHR ''('' then g\<lparr>gClassesToStore := gClassesToStore g @ [ch # rest]\<rparr>
          else g)"

definition AddTypedefToROOTFile :: "globals \<Rightarrow> string \<Rightarrow> globals" where
  "AddTypedefToROOTFile g tdname = g\<lparr>gTypedefsToStore := gTypedefsToStore g @ [tdname]\<rparr>"

definition AddEnumToROOTFile :: "globals \<Rightarrow> string \<Rightarrow> globals" where
  "AddEnumToROOTFile g enumname = g\<lparr>gEnumsToStore := gEnumsToStore g @ [enumname]\<rparr>"

definition AddAncestorPCMROOTFile :: "globals \<Rightarrow> string \<Rightarrow> globals" where
  "AddAncestorPCMROOTFile g pcmName = g\<lparr>gAncestorPCMNames := gAncestorPCMNames g @ [pcmName]\<rparr>"

subsection \<open>The reflection database\<close>

text \<open>
  The classes, typedefs and enums come from ROOT's type system, which the writer only
  queries. The model keeps the answers: per class its data members (if it has a list),
  version, whether its dictionary is loaded, its real data once built, and its enums;
  and the lookups by name. \<open>GetSplit_deleter\<close> is element 2 of what
  \<^verbatim>\<open>TClassEdit::GetSplit\<close> gives for a type name, which the source reads as the deleter
  type; \<open>isUniquePtrOffsetZero\<close> is the layout test the source runs once;
  \<open>IsZombie\<close> tells that the file could not be created.
\<close>

record TDataMember =
  dm_GetName :: string
  dm_GetTypeName :: string
  dm_IsPersistent :: bool

record TEnum =
  enum_GetName :: string
  enum_GetTitle :: string

record TDataType =
  dt_GetName :: string
  dt_GetType :: int

record TClass =
  cl_GetName :: string
  GetListOfDataMembers :: "TDataMember list option"
  GetClassVersion :: int
  IsLoaded :: bool
  GetListOfRealData :: "string list option"
  GetListOfEnums :: "TEnum list option"

record root_env =
  TClass_GetClass :: "string \<Rightarrow> TClass option"
  ListOfTypes_FindObject :: "string \<Rightarrow> TDataType option"
  ListOfEnums_FindObject :: "string \<Rightarrow> TEnum option"
  IsUniquePtr :: "string \<Rightarrow> bool"
  GetSplit_deleter :: "string \<Rightarrow> string"
  isUniquePtrOffsetZero :: bool
  IsZombie :: bool

text \<open>What is written: objects under key names, in the order of the writes.\<close>

datatype tobject =
  PlainTObject | TProtoClass TClass | DataTypeObject TDataType | EnumObject TEnum

datatype pcm_object =
  Object tobject | TObjArray "tobject list" | StringVector "string list"

type_synonym pcm_write = "string \<times> pcm_object"

record snapshot_result =
  opened :: string
  returned :: bool
  written :: "pcm_write list"

subsection \<open>\<^verbatim>\<open>std::string\<close> operations\<close>

text \<open>
  \<^verbatim>\<open>find_last_of\<close>: the last position holding one of the given characters;
  \<open>None\<close> is \<^verbatim>\<open>npos\<close>. \<^verbatim>\<open>substr(pos, n)\<close> for \<open>pos\<close> within the string.
  Lengths are \<^verbatim>\<open>size_t\<close>, 64 bits wide.
\<close>

definition find_last_of :: "string \<Rightarrow> string \<Rightarrow> nat option" where
  "find_last_of s chars =
     (let ps = filter (\<lambda>i. s ! i \<in> set chars) [0..<length s]
      in if ps = [] then None else Some (last ps))"

definition substr :: "string \<Rightarrow> nat \<Rightarrow> nat \<Rightarrow> string" where
  "substr s pos n = take n (drop pos s)"

definition size_t_sub :: "nat \<Rightarrow> nat \<Rightarrow> nat" where
  "size_t_sub a b = (a + 2 ^ 64 - b) mod 2 ^ 64"

definition npos :: nat where
  "npos = 2 ^ 64 - 1"

subsection \<open>\<^verbatim>\<open>CloseStreamerInfoROOTFile\<close>\<close>

definition IsUnsupportedUniquePointer :: "root_env \<Rightarrow> string \<Rightarrow> TDataMember \<Rightarrow> bool" where
  "IsUnsupportedUniquePointer env normName dm =
     (let dmTypeName = dm_GetTypeName dm in
      if IsUniquePtr env dmTypeName then
        if \<not> isUniquePtrOffsetZero env then True
        else
          (case TClass_GetClass env dmTypeName of
             None \<Rightarrow> True
           | Some clm \<Rightarrow>
               (case GetListOfRealData clm of
                  None \<Rightarrow> True
                | Some upDms \<Rightarrow>
                    if length upDms = 0 then True
                    else if \<not> prefix ''std::default_delete<'' (GetSplit_deleter env dmTypeName)
                    then True
                    else False))
      else False)"

text \<open>The loop over the data members of a class: \<open>False\<close> is its \<^verbatim>\<open>return false\<close>.\<close>

fun data_members_supported ::
  "root_env \<Rightarrow> string \<Rightarrow> TClass \<Rightarrow> TDataMember list \<Rightarrow> bool" where
  "data_members_supported env normName cl [] = True"
| "data_members_supported env normName cl (dm # dms) =
     (if \<not> dm_IsPersistent dm \<or> GetClassVersion cl = 0
      then data_members_supported env normName cl dms
      else if IsUnsupportedUniquePointer env normName dm then False
      else data_members_supported env normName cl dms)"

text \<open>
  The three loops over the name lists. \<open>None\<close> is \<^verbatim>\<open>return false\<close>; the
  accumulator is the array filled so far.
\<close>

fun store_classes :: "root_env \<Rightarrow> string list \<Rightarrow> tobject list \<Rightarrow> tobject list option" where
  "store_classes env [] protoClasses = Some protoClasses"
| "store_classes env (normName # rest) protoClasses =
     (case TClass_GetClass env normName of
        None \<Rightarrow> None
      | Some cl \<Rightarrow>
          (case GetListOfDataMembers cl of
             None \<Rightarrow> None
           | Some dms \<Rightarrow>
               if \<not> data_members_supported env normName cl dms then None
               else if IsLoaded cl then store_classes env rest protoClasses
               else store_classes env rest (protoClasses @ [TProtoClass cl])))"

fun store_typedefs :: "root_env \<Rightarrow> string list \<Rightarrow> tobject list \<Rightarrow> tobject list" where
  "store_typedefs env [] typedefs = typedefs"
| "store_typedefs env (dtname # rest) typedefs =
     (case ListOfTypes_FindObject env dtname of
        None \<Rightarrow> store_typedefs env rest typedefs
      | Some dt \<Rightarrow>
          if dt_GetType dt = - 1 then store_typedefs env rest (typedefs @ [DataTypeObject dt])
          else store_typedefs env rest typedefs)"

text \<open>
  One enum name: the enum found, with the title the source sets, or \<open>None\<close> where the
  source returns false.
\<close>

definition find_enum :: "root_env \<Rightarrow> string \<Rightarrow> TEnum option" where
  "find_enum env enumname =
     (case find_last_of enumname ''::'' of
        Some lastSepPos \<Rightarrow>
          (let nsName = substr enumname 0 (size_t_sub lastSepPos 1) in
           case TClass_GetClass env nsName of
             None \<Rightarrow> None
           | Some tclassInstance \<Rightarrow>
               (case GetListOfEnums tclassInstance of
                  None \<Rightarrow> None
                | Some enumList \<Rightarrow>
                    (let unqualifiedEnumName = substr enumname (lastSepPos + 1) npos in
                     case find (\<lambda>e. enum_GetName e = unqualifiedEnumName) enumList of
                       Some en \<Rightarrow> Some (en\<lparr>enum_GetTitle := nsName\<rparr>)
                     | None \<Rightarrow> None)))
      | None \<Rightarrow>
          (case ListOfEnums_FindObject env enumname of
             Some en \<Rightarrow> Some (en\<lparr>enum_GetTitle := []\<rparr>)
           | None \<Rightarrow> None))"

fun store_enums :: "root_env \<Rightarrow> string list \<Rightarrow> tobject list \<Rightarrow> tobject list option" where
  "store_enums env [] enums = Some enums"
| "store_enums env (enumname # rest) enums =
     (case find_enum env enumname of
        None \<Rightarrow> None
      | Some en \<Rightarrow> store_enums env rest (enums @ [EnumObject en]))"

text \<open>
  The function opens the file, writes, and returns its verdict. \<open>written\<close> lists the
  objects it hands to the file, in order. The source asks \<^verbatim>\<open>IsZombie\<close> only before
  the four writes at its end; the write of the \<^verbatim>\<open>EMPTY\<close> marker is not guarded.
\<close>

definition CloseStreamerInfoROOTFile :: "root_env \<Rightarrow> globals \<Rightarrow> bool \<Rightarrow> snapshot_result" where
  "CloseStreamerInfoROOTFile env g writeEmptyRootPCM =
     (let dictFile = gPCMFilename g @ ''?filetype=pcm'' in
      if writeEmptyRootPCM then
        \<lparr> opened = dictFile, returned = True, written = [(''EMPTY'', Object PlainTObject)] \<rparr>
      else
        (case store_classes env (gClassesToStore g) [] of
           None \<Rightarrow> \<lparr> opened = dictFile, returned = False, written = [] \<rparr>
         | Some protoClasses \<Rightarrow>
             (let typedefs = store_typedefs env (gTypedefsToStore g) [] in
              case store_enums env (gEnumsToStore g) [] of
                None \<Rightarrow> \<lparr> opened = dictFile, returned = False, written = [] \<rparr>
              | Some enums \<Rightarrow>
                  if IsZombie env then \<lparr> opened = dictFile, returned = False, written = [] \<rparr>
                  else
                    \<lparr> opened = dictFile, returned = True,
                      written =
                        [(''__ProtoClasses'', TObjArray protoClasses),
                         (''__Typedefs'', TObjArray typedefs),
                         (''__Enums'', TObjArray enums),
                         (''__AncestorPCMNames'', StringVector (gAncestorPCMNames g))] \<rparr>)))"

section \<open>Sample declarations\<close>

text \<open>
  A plain function \<^verbatim>\<open>int n()\<close> at namespace scope, an interpreter whose inheriting
  constructors carry the name \<^verbatim>\<open>Derived\<close>, and a method \<^verbatim>\<open>int n(int, int = 0, int = 0)\<close>
  of a class. The cursors of the examples below are built from them.
\<close>

definition a_function :: "string \<Rightarrow> function_decl" where
  "a_function n =
     \<lparr> getNameAsString = n, getKind = Function, isDeleted = False, isImplicit = False,
       isConstexpr = False, getAccess = AS_none, declContextIsNamespace = True,
       declContextType = None, getStorageClass = SC_None,
       getReturnType = NamedType False ''int'',
       getCanonicalReturnType = NamedType False ''int'', DeduceReturnType = None,
       getNumParams = 0, getMinRequiredArguments = 0, hasConstMethodQualifier = False,
       isVirtual = False, isPure = False, isExplicit = False, isOverloadedOperator = False,
       isInlined = False, getTemplatedKind = TK_NonTemplate \<rparr>"

definition a_method :: "string \<Rightarrow> function_decl" where
  "a_method n =
     (a_function n)\<lparr> getKind := CXXMethod, getAccess := AS_public,
       declContextIsNamespace := False, getNumParams := 3, getMinRequiredArguments := 1 \<rparr>"

definition an_interpreter :: interpreter where
  "an_interpreter =
     \<lparr> findInheritingConstructor =
         (\<lambda>base_ctor shadow. base_ctor\<lparr>getNameAsString := ''Derived''\<rparr>) \<rparr>"

text \<open>
  A cursor in the middle of \<^verbatim>\<open>using Base::h;\<close> written under \<^verbatim>\<open>private:\<close>, where
  \<^verbatim>\<open>h\<close> is a public method of the base class.
\<close>

definition private_using_h :: using_decl where
  "private_using_h =
     \<lparr> usingAccess = AS_private,
       shadows = [\<lparr> isConstructorUsingShadowDecl = False,
                    getTargetDecl = TargetFunction (a_method ''h'') \<rparr>] \<rparr>"

definition cursor_in_private_using :: cursor where
  "cursor_in_private_using =
     (initial_cursor an_interpreter None)
       \<lparr> fContexts := [[UsingDecl private_using_h]], fFirstTime := False,
         fIter := [UsingDecl private_using_h],
         fUsingIter := Some (new_UsingIterator an_interpreter private_using_h),
         fAccessDecl := Some private_using_h \<rparr>"

text \<open>
  A function template \<^verbatim>\<open>template <class T = int> int g()\<close> for which the lookup
  finds the function \<^verbatim>\<open>g\<close>, alone in its scope, and a fresh cursor on that scope.
\<close>

definition defaulted_template :: function_template_decl where
  "defaulted_template =
     \<lparr> templateName = ''g'',
       getTemplateParameters =
         [\<lparr> parmKind = TemplateTypeParmDecl, hasDefaultArgument = True,
            isTemplateParameterPack = False \<rparr>],
       containsUnexpandedParameterPack = False,
       templateMinRequiredArguments = 0,
       templatedParameters = [],
       findFunctionProto = Some (a_function ''g'') \<rparr>"

definition cursor_before_template :: cursor where
  "cursor_before_template =
     (initial_cursor an_interpreter None)
       \<lparr> fContexts := [[FunctionTemplateDecl defaulted_template]],
         fIter := [FunctionTemplateDecl defaulted_template] \<rparr>"

text \<open>
  A scope that holds the function \<^verbatim>\<open>f\<close>, the template \<^verbatim>\<open>g\<close> and the function
  \<^verbatim>\<open>h\<close>, and a cursor that stands on \<^verbatim>\<open>f\<close> in the middle of its iteration.
\<close>

definition scope_f_g_h :: "decl list" where
  "scope_f_g_h =
     [FunctionDecl (a_function ''f''), FunctionTemplateDecl defaulted_template,
      FunctionDecl (a_function ''h'')]"

definition cursor_on_f_before_template :: cursor where
  "cursor_on_f_before_template =
     (initial_cursor an_interpreter None)
       \<lparr> fContexts := [scope_f_g_h], fFirstTime := False, fIter := scope_f_g_h \<rparr>"

text \<open>A cursor on the function \<^verbatim>\<open>f\<close>, the last declaration of its only scope.\<close>

definition cursor_on_last_function :: cursor where
  "cursor_on_last_function =
     (initial_cursor an_interpreter None)
       \<lparr> fContexts := [[FunctionDecl (a_function ''f'')]], fFirstTime := False,
         fIter := [FunctionDecl (a_function ''f'')] \<rparr>"

text \<open>
  A scope that holds a using declaration with no shadow and then the function
  \<^verbatim>\<open>f\<close>, and the cursor that the constructor leaves on that scope.
\<close>

definition empty_using :: using_decl where
  "empty_using = \<lparr> usingAccess = AS_public, shadows = [] \<rparr>"

definition scope_using_then_f :: TClingClassInfo where
  "scope_using_then_f =
     \<lparr> ci_IsValid = True,
       ci_decls = [UsingDecl empty_using, FunctionDecl (a_function ''f'')],
       ci_collectAllContexts = [[UsingDecl empty_using, FunctionDecl (a_function ''f'')]] \<rparr>"

definition cursor_on_empty_using :: cursor where
  "cursor_on_empty_using =
     (initial_cursor an_interpreter None)
       \<lparr> fContexts := [[UsingDecl empty_using, FunctionDecl (a_function ''f'')]],
         fIter := [UsingDecl empty_using, FunctionDecl (a_function ''f'')],
         fUsingIter := Some (new_UsingIterator an_interpreter empty_using),
         fAccessDecl := Some empty_using \<rparr>"

text \<open>
  \<^verbatim>\<open>using Base::Base;\<close> in two classes: the constructor of the first base is
  implicit (the compiler generated it), that of the second is written by the user; and a
  cursor inside each using declaration.
\<close>

definition base_ctor_shadow :: "bool \<Rightarrow> using_shadow_decl" where
  "base_ctor_shadow implicit =
     \<lparr> isConstructorUsingShadowDecl = True,
       getTargetDecl = TargetFunction
         ((a_function ''Base'')\<lparr> getKind := CXXConstructor, isImplicit := implicit,
            getAccess := AS_public, declContextIsNamespace := False \<rparr>) \<rparr>"

definition using_base_ctor :: "bool \<Rightarrow> using_decl" where
  "using_base_ctor implicit =
     \<lparr> usingAccess = AS_public, shadows = [base_ctor_shadow implicit] \<rparr>"

definition cursor_in_using_base_ctor :: "bool \<Rightarrow> cursor" where
  "cursor_in_using_base_ctor implicit =
     (initial_cursor an_interpreter None)
       \<lparr> fContexts := [[UsingDecl (using_base_ctor implicit)]], fFirstTime := False,
         fIter := [UsingDecl (using_base_ctor implicit)],
         fUsingIter := Some (new_UsingIterator an_interpreter (using_base_ctor implicit)),
         fAccessDecl := Some (using_base_ctor implicit) \<rparr>"

text \<open>
  A reflection database that knows nothing, one that knows the namespace \<^verbatim>\<open>N\<close> with
  its enum \<^verbatim>\<open>Color\<close>, and the global lists before any name is added.
\<close>

definition empty_database :: root_env where
  "empty_database =
     \<lparr> TClass_GetClass = (\<lambda>n. None), ListOfTypes_FindObject = (\<lambda>n. None),
       ListOfEnums_FindObject = (\<lambda>n. None), IsUniquePtr = (\<lambda>n. False),
       GetSplit_deleter = (\<lambda>n. []), isUniquePtrOffsetZero = True, IsZombie = False \<rparr>"

definition database_with_N :: root_env where
  "database_with_N =
     empty_database
       \<lparr> TClass_GetClass :=
           (\<lambda>n. if n = ''N'' then
                  Some \<lparr> cl_GetName = ''N'', GetListOfDataMembers = Some [],
                         GetClassVersion = 0, IsLoaded = False, GetListOfRealData = None,
                         GetListOfEnums =
                           Some [\<lparr> enum_GetName = ''Color'', enum_GetTitle = [] \<rparr>] \<rparr>
                else None) \<rparr>"

definition no_names :: globals where
  "no_names =
     \<lparr> gPCMFilename = ''dict.pcm'', gClassesToStore = [], gTypedefsToStore = [],
       gEnumsToStore = [], gAncestorPCMNames = [] \<rparr>"

section \<open>What the properties of \<^verbatim>\<open>Next\<close> speak of\<close>

text \<open>
  An iterating cursor is exhausted when it is past the last declaration of its context
  and, if the first-step flag is set again (the constructor does that), no context is
  left either.
\<close>

definition exhausted :: "cursor \<Rightarrow> bool" where
  "exhausted c =
     (fDecl c = None \<and> fIter c = []
      \<and> (\<not> fFirstTime c \<or> length (fContexts c) \<le> fContextIdx c))"

text \<open>
  The using iterator is active when it exists and is not at its end. A cursor is
  consistent when it holds no specialization and an active using iterator goes with a
  position \<open>fIter\<close> on a declaration (the using declaration it iterates). The
  constructor builds consistent cursors and \<open>Next\<close> keeps them so.
\<close>

definition using_active :: "cursor \<Rightarrow> bool" where
  "using_active c = (case fUsingIter c of Some u \<Rightarrow> ui_bool u | None \<Rightarrow> False)"

definition consistent :: "cursor \<Rightarrow> bool" where
  "consistent c = (fTemplateSpec c = None \<and> (using_active c \<longrightarrow> fIter c \<noteq> []))"

text \<open>A caller that calls \<open>Next\<close> \<open>n\<close> times in a row: the results and the last cursor.\<close>

fun Next_times :: "nat \<Rightarrow> cursor \<Rightarrow> error + int list \<times> cursor" where
  "Next_times 0 c = Inr ([], c)"
| "Next_times (Suc n) c =
     (case Next c of
        Inl e \<Rightarrow> Inl e
      | Inr (r, c') \<Rightarrow>
          (case Next_times n c' of
             Inl e \<Rightarrow> Inl e
           | Inr (rs, c'') \<Rightarrow> Inr (r # rs, c'')))"

section \<open>Properties of the queries\<close>

lemma GetMethodDecl_Some_valid:
  "GetMethodDecl c = Inr (Some fd) \<Longrightarrow> IsValid c"
  by (auto simp: GetMethodDecl_def IsValid_def split: option.splits decl.splits)

text \<open>Reading a small unsigned count as \<^verbatim>\<open>int\<close> keeps its value.\<close>

lemma sint_small: "unat (w :: 32 word) < 2 ^ 31 \<Longrightarrow> sint w = int (unat w)"
proof -
  assume a: "unat w < 2 ^ 31"
  have "int (unat w) < int (2 ^ 31)" using a by (rule iffD2 [OF of_nat_less_iff])
  then have "int (unat w) < 2 ^ 31" by (simp only: of_nat_power of_nat_numeral)
  moreover have "- (2 ^ 31) \<le> int (unat w)"
    by (rule order_trans [of _ 0]) simp_all
  ultimately have "signed_take_bit 31 (int (unat w)) = int (unat w)"
    by (intro signed_take_bit_int_eq_self)
  then show ?thesis by (simp add: sint_uint)
qed

text \<open>
  C10. On a valid cursor whose current declaration is the function \<open>fd\<close>,
  \<open>NDefaultArg\<close> is \<open>NArg\<close> minus the minimum number of arguments of \<open>fd\<close>, and lies
  between 0 and \<open>NArg\<close>. The two hypotheses on \<open>fd\<close> are what the compiler guarantees
  of every function declaration: the minimum number of arguments does not exceed the
  number of parameters, and the number of parameters fits an \<^verbatim>\<open>int\<close>.
\<close>

theorem NDefaultArg_is_NArg_minus_required:
  assumes fd: "GetMethodDecl c = Inr (Some fd)"
    and le: "getMinRequiredArguments fd \<le> getNumParams fd"
    and small: "unat (getNumParams fd) < 2 ^ 31"
  shows "\<exists>n d. NArg c = Inr n \<and> NDefaultArg c = Inr d
     \<and> d = n - int (unat (getMinRequiredArguments fd)) \<and> 0 \<le> d \<and> d \<le> n"
proof -
  let ?num = "getNumParams fd" and ?min = "getMinRequiredArguments fd"
  have v: "IsValid c" using fd by (rule GetMethodDecl_Some_valid)
  have n: "sint ?num = int (unat ?num)" using small by (rule sint_small)
  have sub: "unat (?num - ?min) = unat ?num - unat ?min" using le by (rule unat_sub)
  have mle: "unat ?min \<le> unat ?num" using le by (simp add: word_le_nat_alt)
  have "unat (?num - ?min) < 2 ^ 31" using sub small by linarith
  then have "sint (?num - ?min) = int (unat (?num - ?min))" by (rule sint_small)
  with sub mle have d: "sint (?num - ?min) = int (unat ?num) - int (unat ?min)"
    by (simp only: of_nat_diff)
  have mle': "int (unat ?min) \<le> int (unat ?num)" using mle by (rule iffD2 [OF of_nat_le_iff])
  have "NArg c = Inr (sint ?num)" using v fd by (simp add: NArg_def)
  moreover have "NDefaultArg c = Inr (sint (?num - ?min))"
    using v fd by (simp add: NDefaultArg_def)
  moreover have "sint (?num - ?min) = sint ?num - int (unat ?min)" using n d by linarith
  moreover have "0 \<le> sint (?num - ?min)" using d mle' by linarith
  moreover have "sint (?num - ?min) \<le> sint ?num" using n d by linarith
  ultimately show ?thesis by blast
qed

theorem NDefaultArg_is_NArg_minus_required_witness:
  "GetMethodDecl (TClingMethodInfo_of_function an_interpreter (Some (a_method ''m'')))
     = Inr (Some (a_method ''m''))
   \<and> getMinRequiredArguments (a_method ''m'') \<le> getNumParams (a_method ''m'')
   \<and> unat (getNumParams (a_method ''m'')) < 2 ^ 31
   \<and> NArg (TClingMethodInfo_of_function an_interpreter (Some (a_method ''m''))) = Inr 3
   \<and> NDefaultArg (TClingMethodInfo_of_function an_interpreter (Some (a_method ''m''))) = Inr 2"
proof -
  let ?c = "TClingMethodInfo_of_function an_interpreter (Some (a_method ''m''))"
  have h1: "GetMethodDecl ?c = Inr (Some (a_method ''m''))"
    by (simp add: GetMethodDecl_def GetDecl_def TClingMethodInfo_of_function_def
        initial_cursor_def)
  have h2: "getMinRequiredArguments (a_method ''m'') \<le> getNumParams (a_method ''m'')"
    by (simp add: a_method_def a_function_def)
  have h3: "unat (getNumParams (a_method ''m'')) < 2 ^ 31"
    by (simp add: a_method_def a_function_def)
  have u: "unat (getMinRequiredArguments (a_method ''m'')) = 1"
    by (simp add: a_method_def a_function_def)
  have n: "NArg ?c = Inr 3"
    using h1 GetMethodDecl_Some_valid [OF h1]
    by (simp add: NArg_def a_method_def a_function_def)
  from NDefaultArg_is_NArg_minus_required [OF h1 h2 h3] n u
  have "NDefaultArg ?c = Inr 2" by auto
  with h1 h2 h3 n show ?thesis by blast
qed

text \<open>The loop over the return type and the method flags set no access bit.\<close>

lemma strip_return_type_access:
  "snd (strip_return_type qt p) \<inter> {kIsPublic, kIsProtected, kIsPrivate}
     = p \<inter> {kIsPublic, kIsProtected, kIsPrivate}"
  by (induction qt p rule: strip_return_type.induct) auto

lemma method_property_access:
  "method_property fd \<inter> {kIsPublic, kIsProtected, kIsPrivate} = {}"
  by (auto simp: method_property_def split: if_splits)

lemma Property_access_bits:
  assumes fd: "GetMethodDecl c = Inr (Some fd)" and nd: "\<not> isDeleted fd"
  shows "\<exists>P. Property c = Inr P \<and>
     P \<inter> {kIsPublic, kIsProtected, kIsPrivate}
       = access_property
           (case fAccessDecl c of Some u \<Rightarrow> usingAccess u | None \<Rightarrow> getAccess fd) fd"
proof -
  let ?A = "{kIsPublic, kIsProtected, kIsPrivate}"
  let ?acc = "case fAccessDecl c of Some u \<Rightarrow> usingAccess u | None \<Rightarrow> getAccess fd"
  let ?base = "{kIsCompiled} \<union> (if isConstexpr fd then {kIsConstexpr} else {})
      \<union> access_property ?acc fd
      \<union> (if getStorageClass fd = SC_Static then {kIsStatic} else {})
      \<union> (if isConstQualified (getCanonicalReturnType fd) then {kIsConstant} else {})"
  have v: "IsValid c" using fd by (rule GetMethodDecl_Some_valid)
  obtain qt' p' where s: "strip_return_type (getCanonicalReturnType fd) ?base = (qt', p')"
    by (cases "strip_return_type (getCanonicalReturnType fd) ?base") blast
  let ?P = "p' \<union> (if isConstQualified qt' then {kIsConstant} else {})
      \<union> (if isa_CXXMethodDecl fd then method_property fd else {})"
  have P: "Property c = Inr ?P"
    using v fd nd s by (simp add: Property_def Let_def)
  have a: "access_property ?acc fd \<subseteq> ?A"
    by (cases ?acc) (simp_all add: access_property_def)
  have "p' \<inter> ?A = ?base \<inter> ?A"
    using strip_return_type_access [of "getCanonicalReturnType fd" ?base] s by simp
  also have "\<dots> = access_property ?acc fd"
    using a by (simp add: Int_Un_distrib2 Int_absorb2)
  finally have "p' \<inter> ?A = access_property ?acc fd" .
  moreover have "(if isConstQualified qt' then {kIsConstant} else {}) \<inter> ?A = {}" by simp
  moreover have "(if isa_CXXMethodDecl fd then method_property fd else {}) \<inter> ?A = {}"
    using method_property_access [of fd] by simp
  ultimately have "?P \<inter> ?A = access_property ?acc fd"
    by (simp only: Int_Un_distrib2 Un_empty_right)
  with P show ?thesis by blast
qed

text \<open>
  C7. On a valid cursor whose current declaration is the function \<open>fd\<close>: if \<open>fd\<close> is
  deleted, \<open>Property\<close> is the empty mask. Otherwise the access bits of the mask are
  decided by the access specifier of the using declaration when one is active
  (\<open>fAccessDecl\<close>), and by that of \<open>fd\<close> itself when none is: public, protected and
  private give exactly their own bit, and no access gives the public bit when \<open>fd\<close> is
  declared in a namespace and no access bit otherwise.
\<close>

theorem Property_access_level:
  assumes fd: "GetMethodDecl c = Inr (Some fd)"
  shows "(isDeleted fd \<longrightarrow> Property c = Inr {})
     \<and> (\<not> isDeleted fd \<longrightarrow>
          (\<exists>P. Property c = Inr P \<and>
             P \<inter> {kIsPublic, kIsProtected, kIsPrivate} =
               (case (case fAccessDecl c of
                        Some accessdecl \<Rightarrow> usingAccess accessdecl
                      | None \<Rightarrow> getAccess fd) of
                  AS_public \<Rightarrow> {kIsPublic}
                | AS_protected \<Rightarrow> {kIsProtected}
                | AS_private \<Rightarrow> {kIsPrivate}
                | AS_none \<Rightarrow> if declContextIsNamespace fd then {kIsPublic} else {})))"
proof (intro conjI impI)
  assume "isDeleted fd"
  then show "Property c = Inr {}"
    using fd GetMethodDecl_Some_valid [OF fd] by (simp add: Property_def)
next
  assume "\<not> isDeleted fd"
  from Property_access_bits [OF fd this]
  show "\<exists>P. Property c = Inr P \<and>
      P \<inter> {kIsPublic, kIsProtected, kIsPrivate} =
        (case (case fAccessDecl c of
                 Some accessdecl \<Rightarrow> usingAccess accessdecl
               | None \<Rightarrow> getAccess fd) of
           AS_public \<Rightarrow> {kIsPublic}
         | AS_protected \<Rightarrow> {kIsProtected}
         | AS_private \<Rightarrow> {kIsPrivate}
         | AS_none \<Rightarrow> if declContextIsNamespace fd then {kIsPublic} else {})"
    by (simp add: access_property_def)
qed

text \<open>
  The public method \<^verbatim>\<open>h\<close> reached through a private using declaration is reported
  private.
\<close>

theorem Property_access_level_witness:
  "GetMethodDecl cursor_in_private_using = Inr (Some (a_method ''h''))
   \<and> getAccess (a_method ''h'') = AS_public
   \<and> (\<exists>P. Property cursor_in_private_using = Inr P
          \<and> P \<inter> {kIsPublic, kIsProtected, kIsPrivate} = {kIsPrivate})"
proof -
  have h: "GetMethodDecl cursor_in_private_using = Inr (Some (a_method ''h''))"
    by (simp add: GetMethodDecl_def GetDecl_def GetDeclSlow_def cursor_in_private_using_def
        initial_cursor_def new_UsingIterator_def private_using_h_def ui_not_def ui_deref_def
        dyn_cast_CXXMethodDecl_def isa_CXXMethodDecl_def a_method_def a_function_def)
  have a: "fAccessDecl cursor_in_private_using = Some private_using_h"
    by (simp add: cursor_in_private_using_def)
  have u: "usingAccess private_using_h = AS_private"
    by (simp add: private_using_h_def)
  have d: "\<not> isDeleted (a_method ''h'')" "getAccess (a_method ''h'') = AS_public"
    by (simp_all add: a_method_def a_function_def)
  from Property_access_level [OF h] d a u
  have "\<exists>P. Property cursor_in_private_using = Inr P
          \<and> P \<inter> {kIsPublic, kIsProtected, kIsPrivate} = {kIsPrivate}"
    by simp
  with h d show ?thesis by blast
qed

section \<open>Properties of the snapshot writer\<close>

text \<open>
  C9. \<open>AddStreamerInfoToROOTFile\<close> leaves the list of class names as it is when the
  name is the null pointer, the empty string, or starts with an opening parenthesis;
  for every other name it appends that name, once. It changes no other list.
\<close>

theorem AddStreamerInfoToROOTFile_filters:
  "gClassesToStore (AddStreamerInfoToROOTFile g normName) =
     (if normName = None \<or> normName = Some [] \<or> (\<exists>rest. normName = Some (CHR ''('' # rest))
      then gClassesToStore g
      else gClassesToStore g @ [the normName])
   \<and> gPCMFilename (AddStreamerInfoToROOTFile g normName) = gPCMFilename g
   \<and> gTypedefsToStore (AddStreamerInfoToROOTFile g normName) = gTypedefsToStore g
   \<and> gEnumsToStore (AddStreamerInfoToROOTFile g normName) = gEnumsToStore g
   \<and> gAncestorPCMNames (AddStreamerInfoToROOTFile g normName) = gAncestorPCMNames g"
  by (auto simp: AddStreamerInfoToROOTFile_def split: option.splits list.splits)

text \<open>
  C8. With the write-empty flag set, \<open>CloseStreamerInfoROOTFile\<close> opens the file
  named by the global file name, writes one object to it, a plain \<^verbatim>\<open>TObject\<close> under
  the name \<^verbatim>\<open>EMPTY\<close>, and returns true; the result is the same whatever the four
  name lists hold and whatever the reflection database knows of the names.
\<close>

theorem CloseStreamerInfoROOTFile_write_empty:
  "CloseStreamerInfoROOTFile env g True
     = \<lparr> opened = gPCMFilename g @ ''?filetype=pcm'', returned = True,
         written = [(''EMPTY'', Object PlainTObject)] \<rparr>
   \<and> opened (CloseStreamerInfoROOTFile env g True) = gPCMFilename g @ ''?filetype=pcm''
   \<and> returned (CloseStreamerInfoROOTFile env g True) = True
   \<and> written (CloseStreamerInfoROOTFile env g True) = [(''EMPTY'', Object PlainTObject)]
   \<and> CloseStreamerInfoROOTFile env'
        (g\<lparr>gClassesToStore := classNames, gTypedefsToStore := typedefNames,
            gEnumsToStore := enumNames, gAncestorPCMNames := ancestorNames\<rparr>) True
       = CloseStreamerInfoROOTFile env g True"
  by (simp add: CloseStreamerInfoROOTFile_def Let_def)

section \<open>Properties of \<^verbatim>\<open>Next\<close>\<close>

text \<open>What each piece of the loop body can return, and what it leaves untouched.\<close>

lemma advance_Return:
  "advance c = Return r c' \<Longrightarrow>
     r = 1 \<and> fTemplateSpec c' = fTemplateSpec c \<and> fDecl c' = fDecl c"
  by (auto simp: advance_def Let_def split: if_splits option.splits)

lemma advance_Fallthrough:
  "advance c = Fallthrough c2 \<Longrightarrow>
     \<not> fFirstTime c2 \<and> fTemplateSpec c2 = fTemplateSpec c \<and> fDecl c2 = fDecl c"
  by (auto simp: advance_def Let_def split: if_splits option.splits)

lemma fix_context_Return:
  "fix_context c = Return r c' \<Longrightarrow>
     r = 0 \<and> fIter c' = [] \<and> length (fContexts c') \<le> fContextIdx c'
     \<and> fFirstTime c' = fFirstTime c \<and> fTemplateSpec c' = fTemplateSpec c
     \<and> fDecl c' = fDecl c"
proof (induction c rule: fix_context.induct)
  case (1 c)
  show ?case
  proof (cases "fIter c \<noteq> []")
    case True
    with "1.prems" show ?thesis by (simp add: fix_context.simps)
  next
    case False
    let ?c' = "c\<lparr>fContextIdx := fContextIdx c + 1\<rparr>"
    show ?thesis
    proof (cases "length (fContexts c) \<le> fContextIdx c + 1")
      case True
      with False "1.prems" have "r = 0 \<and> c' = ?c'"
        by (subst (asm) fix_context.simps) (auto simp: Let_def)
      with False True show ?thesis by simp
    next
      case lt: False
      let ?c'' = "?c'\<lparr>fIter := fContexts ?c' ! fContextIdx ?c'\<rparr>"
      from False "1.prems" lt have "fix_context ?c'' = Return r c'"
        by (subst (asm) fix_context.simps) (simp add: Let_def)
      from "1.IH" [OF _ refl _ this] False lt show ?thesis by simp
    qed
  qed
qed

lemma fix_context_Fallthrough:
  "fix_context c = Fallthrough c3 \<Longrightarrow>
     fFirstTime c3 = fFirstTime c \<and> fTemplateSpec c3 = fTemplateSpec c \<and> fDecl c3 = fDecl c"
proof (induction c rule: fix_context.induct)
  case (1 c)
  show ?case
  proof (cases "fIter c \<noteq> []")
    case True
    with "1.prems" show ?thesis by (simp add: fix_context.simps)
  next
    case False
    let ?c' = "c\<lparr>fContextIdx := fContextIdx c + 1\<rparr>"
    from False "1.prems" have lt: "\<not> length (fContexts c) \<le> fContextIdx c + 1"
      by (subst (asm) fix_context.simps) (auto simp: Let_def split: if_splits)
    let ?c'' = "?c'\<lparr>fIter := fContexts ?c' ! fContextIdx ?c'\<rparr>"
    from False "1.prems" lt have "fix_context ?c'' = Fallthrough c3"
      by (subst (asm) fix_context.simps) (simp add: Let_def)
    from "1.IH" [OF _ refl _ this] False lt show ?thesis by simp
  qed
qed

lemma classify_flow:
  "fTemplateSpec c = None \<Longrightarrow>
     (classify c = Return r c' \<longrightarrow> r = 1 \<and> fTemplateSpec c' = None \<and> fDecl c' = fDecl c)
     \<and> (classify c = Fallthrough c' \<longrightarrow>
          fTemplateSpec c' = None \<and> fDecl c' = fDecl c \<and> fFirstTime c' = fFirstTime c)"
  by (cases "fIter c")
     (auto simp: classify_def Let_def GetOrInstantiateFuncTemplateWithDefaults_def
           split: decl.splits if_splits)

lemma InternalNext_loop_result:
  "InternalNext_loop c = (r, c') \<Longrightarrow>
     fTemplateSpec c' = None \<and> fDecl c' = fDecl c \<and> (r = 0 \<or> r = 1)
     \<and> (r = 0 \<longrightarrow> fIter c' = [] \<and> \<not> fFirstTime c'
                     \<and> length (fContexts c') \<le> fContextIdx c')"
proof (induction c arbitrary: r c' rule: InternalNext_loop.induct)
  case (1 c)
  let ?c1 = "c\<lparr>fTemplateSpec := None\<rparr>"
  show ?case
  proof (cases "advance ?c1")
    case (Return r1 c1')
    with "1.prems" have "r = r1" "c' = c1'" by (simp_all add: InternalNext_loop.simps [of c])
    with advance_Return [OF Return] show ?thesis by simp
  next
    case a: (Fallthrough c2)
    note A = advance_Fallthrough [OF a]
    show ?thesis
    proof (cases "fix_context c2")
      case (Return r2 c2')
      with a "1.prems" have "r = r2" "c' = c2'" by (simp_all add: InternalNext_loop.simps [of c])
      with fix_context_Return [OF Return] A show ?thesis by simp
    next
      case f: (Fallthrough c3)
      note F = fix_context_Fallthrough [OF f]
      have s3: "fTemplateSpec c3 = None" using A F by simp
      show ?thesis
      proof (cases "classify c3")
        case (Return r3 c3')
        with a f "1.prems" have "r = r3" "c' = c3'"
          by (simp_all add: InternalNext_loop.simps [of c])
        with classify_flow [OF s3, of r3 c3'] Return A F show ?thesis by simp
      next
        case k: (Fallthrough c4)
        with a f "1.prems" have "InternalNext_loop c4 = (r, c')"
          by (simp add: InternalNext_loop.simps [of c])
        from "1.IH" [OF a f k this] classify_flow [OF s3, of r c4] k A F
        show ?thesis by simp
      qed
    qed
  qed
qed


lemma Next_not_found_exhausted:
  assumes "Next c = Inr (0, c')"
  shows "exhausted c'"
proof (cases "\<not> fFirstTime c \<and> fIter c = []")
  case True
  with assms show ?thesis
    by (auto simp: Next_def InternalNext_def Let_def exhausted_def split: if_splits)
next
  case False
  with assms have d: "fDecl c = None"
    and l: "InternalNext_loop (c\<lparr>fNameCache := []\<rparr>) = (0, c')"
    by (auto simp: Next_def InternalNext_def Let_def split: if_splits)
  from InternalNext_loop_result [OF l] d show ?thesis
    by (simp add: exhausted_def)
qed

lemma Next_exhausted:
  assumes "exhausted c"
  shows "\<exists>c'. Next c = Inr (0, c') \<and> exhausted c' \<and> fContexts c' = fContexts c
           \<and> fContextIdx c \<le> fContextIdx c' \<and> \<not> fFirstTime c'
           \<and> (\<not> fFirstTime c \<longrightarrow> c' = c\<lparr>fNameCache := []\<rparr>)"
proof (cases "fFirstTime c")
  case False
  with assms have "Next c = Inr (0, c\<lparr>fNameCache := []\<rparr>)"
    by (simp add: Next_def InternalNext_def Let_def exhausted_def)
  with assms False show ?thesis by (simp add: exhausted_def)
next
  case True
  let ?c2 = "c\<lparr>fNameCache := [], fTemplateSpec := None, fFirstTime := False\<rparr>"
  let ?c' = "?c2\<lparr>fContextIdx := fContextIdx c + 1\<rparr>"
  from assms True have len: "length (fContexts c) \<le> fContextIdx c" and it: "fIter c = []"
    and d: "fDecl c = None"
    by (simp_all add: exhausted_def)
  have a: "advance (c\<lparr>fNameCache := [], fTemplateSpec := None\<rparr>) = Fallthrough ?c2"
    using True by (simp add: advance_def)
  have f: "fix_context ?c2 = Return 0 ?c'"
    using it len by (subst fix_context.simps) (simp add: Let_def)
  have "InternalNext_loop (c\<lparr>fNameCache := []\<rparr>) = (0, ?c')"
    using a f by (subst InternalNext_loop.simps) simp
  then have "Next c = Inr (0, ?c')"
    using True d by (simp add: Next_def InternalNext_def Let_def)
  moreover have "exhausted ?c'" using d it by (simp add: exhausted_def)
  ultimately show ?thesis using True by simp
qed

text \<open>
  C6. Once a call of \<open>Next\<close> has returned 0, or the cursor is exhausted for another
  reason (its scope had nothing to report when it was built), every later call of
  \<open>Next\<close>, however many, returns 0 and leaves the cursor exhausted; the list of contexts
  stays as it is and the index into it never goes back. Unless the first-step flag is
  set, the calls change nothing in the cursor but the name cache, which they clear.
\<close>

theorem Next_after_exhaustion:
  assumes "Next c0 = Inr (0, c) \<or> exhausted c"
  shows "\<exists>c'. Next_times n c = Inr (replicate n 0, c') \<and> exhausted c'
           \<and> fContexts c' = fContexts c \<and> fContextIdx c \<le> fContextIdx c'
           \<and> (\<not> fFirstTime c \<longrightarrow> c' = (if n = 0 then c else c\<lparr>fNameCache := []\<rparr>))"
proof -
  from assms have "exhausted c" by (auto dest: Next_not_found_exhausted)
  then show ?thesis
  proof (induction n arbitrary: c)
    case 0
    then show ?case by simp
  next
    case (Suc n)
    from Next_exhausted [OF Suc.prems] obtain c1 where
      1: "Next c = Inr (0, c1)" "exhausted c1" "fContexts c1 = fContexts c"
         "fContextIdx c \<le> fContextIdx c1" "\<not> fFirstTime c1"
         "\<not> fFirstTime c \<longrightarrow> c1 = c\<lparr>fNameCache := []\<rparr>"
      by blast
    from Suc.IH [OF 1(2)] obtain c' where
      2: "Next_times n c1 = Inr (replicate n 0, c')" "exhausted c'"
         "fContexts c' = fContexts c1" "fContextIdx c1 \<le> fContextIdx c'"
         "\<not> fFirstTime c1 \<longrightarrow> c' = (if n = 0 then c1 else c1\<lparr>fNameCache := []\<rparr>)"
      by blast
    have 3: "\<not> fFirstTime c \<longrightarrow> c' = c\<lparr>fNameCache := []\<rparr>"
    proof
      assume "\<not> fFirstTime c"
      with 1 have c1: "c1 = c\<lparr>fNameCache := []\<rparr>" by simp
      from 2(5) 1(5) have "c' = (if n = 0 then c1 else c1\<lparr>fNameCache := []\<rparr>)" by simp
      then show "c' = c\<lparr>fNameCache := []\<rparr>" by (simp add: c1)
    qed
    from 1 2 3 show ?case by simp
  qed
qed

lemma InternalNext_loop_fTemplateSpec:
  "InternalNext_loop (c\<lparr>fTemplateSpec := x\<rparr>) = InternalNext_loop c"
  by (simp add: InternalNext_loop.simps [of c] InternalNext_loop.simps [of "c\<lparr>fTemplateSpec := x\<rparr>"])

text \<open>
  A function template under the cursor is never reported: the classification falls
  through, and the loop goes on from the template as from any declaration that is no
  function.
\<close>

lemma classify_template:
  "fIter c = FunctionTemplateDecl FTDecl # rest \<Longrightarrow>
     classify c = Fallthrough (c\<lparr>fTemplateSpec := None\<rparr>)"
  by (simp add: classify_def GetOrInstantiateFuncTemplateWithDefaults_def)

lemma advance_fNameCache:
  "advance c = Fallthrough c2 \<Longrightarrow> fNameCache c2 = fNameCache c"
  by (auto simp: advance_def Let_def split: if_splits option.splits)

lemma fix_context_fNameCache:
  "fix_context c = Fallthrough c3 \<Longrightarrow> fNameCache c3 = fNameCache c"
proof (induction c rule: fix_context.induct)
  case (1 c)
  show ?case
  proof (cases "fIter c \<noteq> []")
    case True
    with "1.prems" show ?thesis by (simp add: fix_context.simps)
  next
    case False
    let ?c' = "c\<lparr>fContextIdx := fContextIdx c + 1\<rparr>"
    from False "1.prems" have lt: "\<not> length (fContexts c) \<le> fContextIdx c + 1"
      by (subst (asm) fix_context.simps) (auto simp: Let_def split: if_splits)
    let ?c'' = "?c'\<lparr>fIter := fContexts ?c' ! fContextIdx ?c'\<rparr>"
    from False "1.prems" lt have "fix_context ?c'' = Fallthrough c3"
      by (subst (asm) fix_context.simps) (simp add: Let_def)
    from "1.IH" [OF _ refl _ this] False lt show ?thesis by simp
  qed
qed

lemma InternalNext_loop_over_template:
  assumes a: "advance (c\<lparr>fTemplateSpec := None\<rparr>) = Fallthrough c2"
    and f: "fix_context c2 = Fallthrough c3"
    and t: "fIter c3 = FunctionTemplateDecl FTDecl # rest"
  shows "InternalNext_loop c = InternalNext_loop c3"
proof -
  have "InternalNext_loop c = InternalNext_loop (c3\<lparr>fTemplateSpec := None\<rparr>)"
    using a f classify_template [OF t] by (subst InternalNext_loop.simps) simp
  also have "\<dots> = InternalNext_loop c3" by (rule InternalNext_loop_fTemplateSpec)
  finally show ?thesis .
qed

lemma Next_steps_onto_template:
  assumes d: "fDecl c = None" and g: "fFirstTime c \<or> fIter c \<noteq> []"
    and a: "advance (c\<lparr>fNameCache := [], fTemplateSpec := None\<rparr>) = Fallthrough c2"
    and f: "fix_context c2 = Fallthrough c3"
    and t: "fIter c3 = FunctionTemplateDecl FTDecl # rest"
  shows "Next c = Next c3"
proof -
  have a': "advance ((c\<lparr>fNameCache := []\<rparr>)\<lparr>fTemplateSpec := None\<rparr>) = Fallthrough c2"
    using a by simp
  have l: "InternalNext_loop (c\<lparr>fNameCache := []\<rparr>) = InternalNext_loop c3"
    by (rule InternalNext_loop_over_template [OF a' f t])
  have "fNameCache c3 = []"
    using advance_fNameCache [OF a] fix_context_fNameCache [OF f] by simp
  then have e: "c3\<lparr>fNameCache := []\<rparr> = c3" by (cases c3) simp
  have d3: "fDecl c3 = None"
    using advance_Fallthrough [OF a] fix_context_Fallthrough [OF f] d by simp
  have "Next c3 = Inr (InternalNext_loop c3)"
    using d3 t e by (simp add: Next_def InternalNext_def Let_def)
  moreover have "Next c = Inr (InternalNext_loop (c\<lparr>fNameCache := []\<rparr>))"
    using d g by (auto simp: Next_def InternalNext_def Let_def)
  ultimately show ?thesis using l by simp
qed

lemma Next_from_declaration_before_template:
  assumes d: "fDecl c = None" and nf: "\<not> fFirstTime c" and nu: "\<not> using_active c"
    and it: "fIter c = d0 # FunctionTemplateDecl FTDecl # rest"
  shows "Next c = Next (c\<lparr>fIter := FunctionTemplateDecl FTDecl # rest\<rparr>)"
proof -
  let ?t = "FunctionTemplateDecl FTDecl # rest"
  let ?c2 = "c\<lparr>fNameCache := [], fTemplateSpec := None, fIter := ?t\<rparr>"
  have a: "advance (c\<lparr>fNameCache := [], fTemplateSpec := None\<rparr>) = Fallthrough ?c2"
    using nf nu it
    by (auto simp: advance_def using_active_def incr_def split: option.splits)
  have f: "fix_context ?c2 = Fallthrough ?c2"
    by (subst fix_context.simps) simp
  have 1: "Next c = Next ?c2"
    by (rule Next_steps_onto_template [OF d _ a f, of FTDecl rest]) (simp_all add: it)
  have e: "?c2\<lparr>fNameCache := []\<rparr> = (c\<lparr>fIter := ?t, fNameCache := []\<rparr>)\<lparr>fTemplateSpec := None\<rparr>"
    by (cases c) simp
  have "Next ?c2 = Inr (InternalNext_loop (?c2\<lparr>fNameCache := []\<rparr>))"
    using d by (simp add: Next_def InternalNext_def Let_def)
  also have "\<dots> = Inr (InternalNext_loop (c\<lparr>fIter := ?t, fNameCache := []\<rparr>))"
    by (simp only: e InternalNext_loop_fTemplateSpec)
  also have "\<dots> = Next (c\<lparr>fIter := ?t\<rparr>)"
    using d by (simp add: Next_def InternalNext_def Let_def)
  finally show ?thesis using 1 by simp
qed


lemma Next_over_template_onto_function:
  assumes d: "fDecl c = None" and nf: "\<not> fFirstTime c" and nu: "fUsingIter c = None"
    and it: "fIter c = d0 # FunctionTemplateDecl FTDecl # FunctionDecl FD # rest"
    and nd: "\<not> isDeleted FD"
  shows "Next c = Inr (1, c\<lparr>fNameCache := [], fTemplateSpec := None,
                           fIter := FunctionDecl FD # rest\<rparr>)
       \<and> GetDecl (c\<lparr>fNameCache := [], fTemplateSpec := None,
                     fIter := FunctionDecl FD # rest\<rparr>) = Some (FunctionDecl FD)"
proof -
  let ?t = "c\<lparr>fIter := FunctionTemplateDecl FTDecl # FunctionDecl FD # rest\<rparr>"
  let ?e = "c\<lparr>fNameCache := [], fTemplateSpec := None, fIter := FunctionDecl FD # rest\<rparr>"
  have "\<not> using_active c" using nu by (simp add: using_active_def)
  from Next_from_declaration_before_template [OF d nf this it]
  have 1: "Next c = Next ?t" .
  let ?c2 = "?t\<lparr>fNameCache := [], fTemplateSpec := None, fIter := FunctionDecl FD # rest\<rparr>"
  have a: "advance ((?t\<lparr>fNameCache := []\<rparr>)\<lparr>fTemplateSpec := None\<rparr>) = Fallthrough ?c2"
    using nf nu by (simp add: advance_def incr_def)
  have f: "fix_context ?c2 = Fallthrough ?c2"
    by (subst fix_context.simps) simp
  have k: "classify ?c2 = Return 1 ?c2"
    using nd by (simp add: classify_def)
  have "InternalNext_loop (?t\<lparr>fNameCache := []\<rparr>) = (1, ?c2)"
    using a f k by (subst InternalNext_loop.simps) simp
  then have "Next ?t = Inr (1, ?c2)"
    using d by (simp add: Next_def InternalNext_def Let_def)
  moreover have "?c2 = ?e" by (cases c) simp
  ultimately have "Next c = Inr (1, ?e)" using 1 by simp
  moreover have "GetDecl ?e = Some (FunctionDecl FD)"
    using d nu by (simp add: GetDecl_def GetDeclSlow_def)
  ultimately show ?thesis by simp
qed

text \<open>
  C1, as the code has it. \<open>Next\<close> never reports a function template as instantiated:
  whenever it returns 1, and whenever it starts without a specialization, the cursor
  holds no specialization afterwards. A cursor that comes upon a function template,
  whatever the defaults of its parameters and whatever the lookup would find, passes
  over it and looks for the next declaration: on its first step a cursor that stands on
  a template goes on as if the step were made; in the middle of an iteration, a step
  from a declaration that is followed by a template does what the step from the template
  does, and when a function that is not deleted follows the template, that function is
  reported and is the current declaration; and in general, whenever the step to the next
  declaration, across contexts and out of a finished using declaration as well, brings
  the cursor onto a template, \<open>Next\<close> does what it does from there.
\<close>

theorem Next_never_instantiates:
  "(Next c = Inr (r, c') \<and> (r = 1 \<or> fTemplateSpec c = None) \<longrightarrow> fTemplateSpec c' = None)
   \<and> (fDecl c = None \<and> fFirstTime c \<and> fIter c = FunctionTemplateDecl FTDecl # rest
        \<longrightarrow> Next c = Next (c\<lparr>fFirstTime := False\<rparr>))
   \<and> (fDecl c = None \<and> \<not> fFirstTime c \<and> \<not> using_active c
        \<and> fIter c = d # FunctionTemplateDecl FTDecl # rest
        \<longrightarrow> Next c = Next (c\<lparr>fIter := FunctionTemplateDecl FTDecl # rest\<rparr>))
   \<and> (fDecl c = None \<and> \<not> fFirstTime c \<and> fUsingIter c = None
        \<and> fIter c = d # FunctionTemplateDecl FTDecl # FunctionDecl FD # rest
        \<and> \<not> isDeleted FD
        \<longrightarrow> Next c = Inr (1, c\<lparr>fNameCache := [], fTemplateSpec := None,
                                 fIter := FunctionDecl FD # rest\<rparr>)
            \<and> GetDecl (c\<lparr>fNameCache := [], fTemplateSpec := None,
                          fIter := FunctionDecl FD # rest\<rparr>) = Some (FunctionDecl FD))
   \<and> (fDecl c = None \<and> (fFirstTime c \<or> fIter c \<noteq> [])
        \<and> advance (c\<lparr>fNameCache := [], fTemplateSpec := None\<rparr>) = Fallthrough c2
        \<and> fix_context c2 = Fallthrough c3
        \<and> fIter c3 = FunctionTemplateDecl FTDecl # rest
        \<longrightarrow> Next c = Next c3)"
proof (intro conjI impI)
  assume a: "Next c = Inr (r, c') \<and> (r = 1 \<or> fTemplateSpec c = None)"
  show "fTemplateSpec c' = None"
  proof (cases "\<not> fFirstTime c \<and> fIter c = []")
    case True
    with a show ?thesis
      by (auto simp: Next_def InternalNext_def Let_def split: if_splits)
  next
    case False
    with a have "InternalNext_loop (c\<lparr>fNameCache := []\<rparr>) = (r, c')"
      by (auto simp: Next_def InternalNext_def Let_def split: if_splits)
    from InternalNext_loop_result [OF this] show ?thesis by simp
  qed
next
  assume a: "fDecl c = None \<and> fFirstTime c \<and> fIter c = FunctionTemplateDecl FTDecl # rest"
  let ?c0 = "c\<lparr>fNameCache := []\<rparr>"
  let ?c2 = "c\<lparr>fNameCache := [], fFirstTime := False, fTemplateSpec := None\<rparr>"
  have adv: "advance (?c0\<lparr>fTemplateSpec := None\<rparr>) = Fallthrough ?c2"
    using a by (simp add: advance_def)
  have fx: "fix_context ?c2 = Fallthrough ?c2"
    using a by (subst fix_context.simps) simp
  have cls: "classify ?c2 = Fallthrough ?c2"
    using a by (simp add: classify_def GetOrInstantiateFuncTemplateWithDefaults_def)
  have "InternalNext_loop ?c0 = InternalNext_loop ?c2"
    using adv fx cls by (subst InternalNext_loop.simps) simp
  also have "\<dots> = InternalNext_loop (c\<lparr>fNameCache := [], fFirstTime := False\<rparr>)"
    by (rule InternalNext_loop_fTemplateSpec)
  finally have l: "InternalNext_loop ?c0
      = InternalNext_loop (c\<lparr>fNameCache := [], fFirstTime := False\<rparr>)" .
  have swap: "c\<lparr>fFirstTime := False, fNameCache := []\<rparr>
      = c\<lparr>fNameCache := [], fFirstTime := False\<rparr>"
    by (cases c) simp
  show "Next c = Next (c\<lparr>fFirstTime := False\<rparr>)"
    using a l by (simp add: Next_def InternalNext_def Let_def swap)
next
  assume "fDecl c = None \<and> \<not> fFirstTime c \<and> \<not> using_active c
        \<and> fIter c = d # FunctionTemplateDecl FTDecl # rest"
  then show "Next c = Next (c\<lparr>fIter := FunctionTemplateDecl FTDecl # rest\<rparr>)"
    by (intro Next_from_declaration_before_template [of c d FTDecl rest]) simp_all
next
  assume a: "fDecl c = None \<and> \<not> fFirstTime c \<and> fUsingIter c = None
        \<and> fIter c = d # FunctionTemplateDecl FTDecl # FunctionDecl FD # rest
        \<and> \<not> isDeleted FD"
  have n: "Next c = Inr (1, c\<lparr>fNameCache := [], fTemplateSpec := None,
                                 fIter := FunctionDecl FD # rest\<rparr>)
            \<and> GetDecl (c\<lparr>fNameCache := [], fTemplateSpec := None,
                          fIter := FunctionDecl FD # rest\<rparr>) = Some (FunctionDecl FD)"
    using a by (intro Next_over_template_onto_function [of c d FTDecl FD rest]) simp_all
  from n show "Next c = Inr (1, c\<lparr>fNameCache := [], fTemplateSpec := None,
                                 fIter := FunctionDecl FD # rest\<rparr>)" by simp
  from n show "GetDecl (c\<lparr>fNameCache := [], fTemplateSpec := None,
                          fIter := FunctionDecl FD # rest\<rparr>) = Some (FunctionDecl FD)" by simp
next
  assume "fDecl c = None \<and> (fFirstTime c \<or> fIter c \<noteq> [])
        \<and> advance (c\<lparr>fNameCache := [], fTemplateSpec := None\<rparr>) = Fallthrough c2
        \<and> fix_context c2 = Fallthrough c3
        \<and> fIter c3 = FunctionTemplateDecl FTDecl # rest"
  then show "Next c = Next c3"
    by (intro Next_steps_onto_template [of c c2 c3 FTDecl rest]) simp_all
qed

text \<open>The definitions that running \<open>Next\<close> on a sample cursor unfolds.\<close>

lemmas run_Next =
  Next_def InternalNext_def InternalNext_loop.simps advance_def fix_context.simps
  classify_def incr_def Let_def using_loop.simps ui_bool_def ui_not_def ui_incr_def
  ui_deref_def new_UsingIterator_def GetOrInstantiateFuncTemplateWithDefaults_def
  initial_cursor_def a_function_def

text \<open>
  The cursor on the last function of its scope: the next call returns 0, and so do the
  three calls after it.
\<close>

theorem Next_after_exhaustion_witness:
  "Next cursor_on_last_function
     = Inr (0, cursor_on_last_function\<lparr>fContextIdx := 1, fIter := []\<rparr>)
   \<and> (\<exists>c'. Next_times (Suc (Suc (Suc 0)))
               (cursor_on_last_function\<lparr>fContextIdx := 1, fIter := []\<rparr>)
             = Inr ([0, 0, 0], c')
           \<and> exhausted c' \<and> fContexts c' = [[FunctionDecl (a_function ''f'')]])"
proof -
  let ?c = "cursor_on_last_function\<lparr>fContextIdx := 1, fIter := []\<rparr>"
  have h: "Next cursor_on_last_function = Inr (0, ?c)"
    by (simp add: run_Next cursor_on_last_function_def)
  have f: "fContexts ?c = [[FunctionDecl (a_function ''f'')]]"
    by (simp add: cursor_on_last_function_def)
  have "\<exists>c'. Next_times (Suc (Suc (Suc 0))) ?c = Inr (replicate (Suc (Suc (Suc 0))) 0, c')
          \<and> exhausted c' \<and> fContexts c' = fContexts ?c \<and> fContextIdx ?c \<le> fContextIdx c'
          \<and> (\<not> fFirstTime ?c \<longrightarrow>
                c' = (if Suc (Suc (Suc 0)) = 0 then ?c else ?c\<lparr>fNameCache := []\<rparr>))"
    by (rule Next_after_exhaustion [of cursor_on_last_function]) (rule disjI1, rule h)
  with h f show ?thesis by (auto simp del: Next_times.simps)
qed

text \<open>
  From \<^verbatim>\<open>f\<close> the cursor passes over the template \<^verbatim>\<open>g\<close>, whose lookup would find a
  function, and reports \<^verbatim>\<open>h\<close>; and the fresh cursor in front of a template takes its
  first step as if it were made.
\<close>

theorem Next_never_instantiates_witness:
  "fDecl cursor_on_f_before_template = None \<and> \<not> fFirstTime cursor_on_f_before_template
   \<and> fUsingIter cursor_on_f_before_template = None
   \<and> fIter cursor_on_f_before_template
       = [FunctionDecl (a_function ''f''), FunctionTemplateDecl defaulted_template,
          FunctionDecl (a_function ''h'')]
   \<and> findFunctionProto defaulted_template = Some (a_function ''g'')
   \<and> Next cursor_on_f_before_template
       = Inr (1, cursor_on_f_before_template\<lparr>fIter := [FunctionDecl (a_function ''h'')]\<rparr>)
   \<and> GetDecl (cursor_on_f_before_template\<lparr>fIter := [FunctionDecl (a_function ''h'')]\<rparr>)
       = Some (FunctionDecl (a_function ''h''))
   \<and> fTemplateSpec (cursor_on_f_before_template\<lparr>fIter := [FunctionDecl (a_function ''h'')]\<rparr>)
       = None
   \<and> fDecl cursor_before_template = None \<and> fFirstTime cursor_before_template
   \<and> fIter cursor_before_template = [FunctionTemplateDecl defaulted_template]
   \<and> Next cursor_before_template = Next (cursor_before_template\<lparr>fFirstTime := False\<rparr>)"
proof -
  let ?c = "cursor_on_f_before_template"
  let ?e = "?c\<lparr>fNameCache := [], fTemplateSpec := None, fIter := FunctionDecl (a_function ''h'') # []\<rparr>"
  have h: "fDecl ?c = None \<and> \<not> fFirstTime ?c \<and> fUsingIter ?c = None
      \<and> fIter ?c = FunctionDecl (a_function ''f'') # FunctionTemplateDecl defaulted_template
            # FunctionDecl (a_function ''h'') # []
      \<and> \<not> isDeleted (a_function ''h'')"
    by (simp add: cursor_on_f_before_template_def scope_f_g_h_def initial_cursor_def
        a_function_def)
  note T = Next_never_instantiates [where c = ?c and r = 1 and c' = ?e
      and FTDecl = defaulted_template and rest = "[]"
      and d = "FunctionDecl (a_function ''f'')" and FD = "a_function ''h''"]
  from T h have n: "Next ?c = Inr (1, ?e) \<and> GetDecl ?e = Some (FunctionDecl (a_function ''h''))"
    by blast
  with T have s: "fTemplateSpec ?e = None" by blast
  have e: "?e = ?c\<lparr>fIter := [FunctionDecl (a_function ''h'')]\<rparr>"
    by (simp add: cursor_on_f_before_template_def initial_cursor_def)
  have l: "findFunctionProto defaulted_template = Some (a_function ''g'')"
    by (simp add: defaulted_template_def)
  have b: "fDecl cursor_before_template = None \<and> fFirstTime cursor_before_template
      \<and> fIter cursor_before_template = FunctionTemplateDecl defaulted_template # []"
    by (simp add: cursor_before_template_def initial_cursor_def)
  from Next_never_instantiates [where c = cursor_before_template
      and FTDecl = defaulted_template and rest = "[]"] b
  have "Next cursor_before_template = Next (cursor_before_template\<lparr>fFirstTime := False\<rparr>)"
    by blast
  with h n s l b show ?thesis unfolding e by simp
qed

text \<open>
  C1 as the claim states it fails. Every parameter of the template \<^verbatim>\<open>g\<close> has a
  default, it has no parameter pack and needs no template argument, the lookup finds
  the function \<^verbatim>\<open>g\<close>, which is not deleted, and the statements behind the
  \<^verbatim>\<open>return\<close> would deliver it; yet \<open>Next\<close> returns 0 on the scope that holds the
  template, and the cursor has no current declaration.
\<close>

theorem template_with_defaults_not_reported:
  "list_all hasDefaultArgument (getTemplateParameters defaulted_template)
   \<and> \<not> containsUnexpandedParameterPack defaulted_template
   \<and> templateMinRequiredArguments defaulted_template = 0
   \<and> findFunctionProto defaulted_template = Some (a_function ''g'')
   \<and> \<not> isDeleted (a_function ''g'')
   \<and> unreached_instantiation defaulted_template = Some (a_function ''g'')
   \<and> fIter cursor_before_template = [FunctionTemplateDecl defaulted_template]
   \<and> Next cursor_before_template
       = Inr (0, cursor_before_template\<lparr>fFirstTime := False, fContextIdx := 1, fIter := []\<rparr>)
   \<and> GetDecl (cursor_before_template\<lparr>fFirstTime := False, fContextIdx := 1, fIter := []\<rparr>)
       = None"
proof -
  have "Next cursor_before_template
       = Inr (0, cursor_before_template\<lparr>fFirstTime := False, fContextIdx := 1, fIter := []\<rparr>)"
    by (simp add: run_Next cursor_before_template_def defaulted_template_def)
  moreover have "unreached_instantiation defaulted_template = Some (a_function ''g'')"
    by (simp add: unreached_instantiation_def first_parm_rejected_def defaulted_template_def)
  moreover have "GetDecl (cursor_before_template\<lparr>fFirstTime := False, fContextIdx := 1, fIter := []\<rparr>)
       = None"
    by (simp add: GetDecl_def GetDeclSlow_def cursor_before_template_def initial_cursor_def)
  ultimately show ?thesis
    by (simp add: defaulted_template_def a_function_def cursor_before_template_def)
qed

text \<open>
  Inside a using declaration the loop over the shadows stops only on a shadow that
  resolves to a function, and a step of an active iterator either reports such a shadow
  or discards the iterator, with the access declaration, and goes on in the scope.
\<close>

lemma using_loop_stops_on_function:
  "ui_bool (using_loop u) \<Longrightarrow> ui_deref (using_loop u) \<noteq> None"
proof (induction u rule: using_loop.induct)
  case (1 u)
  show ?case
  proof (cases "ui_bool (ui_incr u) \<and> ui_deref (ui_incr u) = None")
    case True
    then have "using_loop u = using_loop (ui_incr u)"
      by (subst using_loop.simps) (simp add: Let_def)
    with "1.IH" [OF refl] True "1.prems" show ?thesis by simp
  next
    case False
    then have "using_loop u = ui_incr u"
      by (subst using_loop.simps) (auto simp: Let_def)
    with False "1.prems" show ?thesis by auto
  qed
qed

lemma advance_in_using:
  assumes "\<not> fFirstTime c" and "fUsingIter c = Some u" and "ui_bool u"
  shows "(ui_bool (using_loop u) \<longrightarrow>
            advance c = Return 1 (c\<lparr>fUsingIter := Some (using_loop u)\<rparr>)
            \<and> GetDeclSlow (c\<lparr>fUsingIter := Some (using_loop u), fTemplateSpec := None\<rparr>) \<noteq> None)
       \<and> (\<not> ui_bool (using_loop u) \<longrightarrow>
            advance c = Fallthrough
              (c\<lparr>fUsingIter := None, fAccessDecl := None, fIter := incr (fIter c)\<rparr>))"
  using assms using_loop_stops_on_function [of u]
  by (auto simp: advance_def Let_def GetDeclSlow_def ui_not_def ui_bool_def)

text \<open>
  C2 at a using declaration with no shadow. The constructor leaves the cursor on the
  using declaration with an iterator that is at its end from the start. The first
  \<open>Next\<close> stays there, as the first call does. The second \<open>Next\<close> finds the iterator
  not active, steps to the function \<^verbatim>\<open>f\<close> and returns 1, but does not discard the
  iterator: the current declaration is then taken from the finished iterator and is
  null, although \<open>fIter\<close> is on \<^verbatim>\<open>f\<close>.
\<close>

theorem stale_using_iterator_hides_declaration:
  "TClingMethodInfo_of_class an_interpreter (Some scope_using_then_f)
     = Inr cursor_on_empty_using
   \<and> Next cursor_on_empty_using = Inr (1, cursor_on_empty_using\<lparr>fFirstTime := False\<rparr>)
   \<and> Next (cursor_on_empty_using\<lparr>fFirstTime := False\<rparr>)
       = Inr (1, cursor_on_empty_using
                   \<lparr>fFirstTime := False, fIter := [FunctionDecl (a_function ''f'')]\<rparr>)
   \<and> fUsingIter (cursor_on_empty_using
                   \<lparr>fFirstTime := False, fIter := [FunctionDecl (a_function ''f'')]\<rparr>)
       = Some \<lparr> ui_fInterp = an_interpreter, ui_fIter = [] \<rparr>
   \<and> GetDecl (cursor_on_empty_using
                \<lparr>fFirstTime := False, fIter := [FunctionDecl (a_function ''f'')]\<rparr>)
       = None
   \<and> \<not> IsValid (cursor_on_empty_using
                    \<lparr>fFirstTime := False, fIter := [FunctionDecl (a_function ''f'')]\<rparr>)"
proof -
  have "TClingMethodInfo_of_class an_interpreter (Some scope_using_then_f)
     = Inr cursor_on_empty_using"
    by (simp add: TClingMethodInfo_of_class_def run_Next scope_using_then_f_def
        cursor_on_empty_using_def empty_using_def)
  moreover have "Next cursor_on_empty_using
      = Inr (1, cursor_on_empty_using\<lparr>fFirstTime := False\<rparr>)"
    by (simp add: run_Next cursor_on_empty_using_def empty_using_def)
  moreover have "Next (cursor_on_empty_using\<lparr>fFirstTime := False\<rparr>)
       = Inr (1, cursor_on_empty_using
                   \<lparr>fFirstTime := False, fIter := [FunctionDecl (a_function ''f'')]\<rparr>)"
    by (simp add: run_Next cursor_on_empty_using_def empty_using_def)
  moreover have "GetDecl (cursor_on_empty_using
                \<lparr>fFirstTime := False, fIter := [FunctionDecl (a_function ''f'')]\<rparr>) = None"
    by (simp add: GetDecl_def GetDeclSlow_def run_Next cursor_on_empty_using_def
        empty_using_def)
  ultimately show ?thesis
    by (simp add: IsValid_def cursor_on_empty_using_def new_UsingIterator_def empty_using_def)
qed

text \<open>
  C4, as the code has it. When the shadow under an active using iterator is a
  constructor shadow whose target is a constructor of the base class, the current
  declaration is null if that constructor is implicit, and otherwise the inheriting
  constructor that the interpreter makes for the current class.
\<close>

theorem inherited_constructor_shadow:
  assumes "fDecl c = None" and "fTemplateSpec c = None" and "fUsingIter c = Some u"
    and "ui_fIter u = s # rest" and "isConstructorUsingShadowDecl s"
    and "getTargetDecl s = TargetFunction base_ctor" and "isa_CXXConstructorDecl base_ctor"
  shows "GetDecl c =
     (if isImplicit base_ctor then None
      else Some (FunctionDecl (findInheritingConstructor (ui_fInterp u) base_ctor s)))"
  using assms
  by (simp add: GetDecl_def GetDeclSlow_def ui_not_def ui_deref_def
      dyn_cast_CXXConstructorDecl_def)

text \<open>A base constructor written by the user is replaced by the inheriting one.\<close>

theorem inherited_constructor_shadow_witness:
  "GetDecl (cursor_in_using_base_ctor False)
     = Some (FunctionDecl
         ((a_function ''Derived'')\<lparr> getKind := CXXConstructor, getAccess := AS_public,
            declContextIsNamespace := False \<rparr>))"
proof -
  let ?base = "(a_function ''Base'')\<lparr> getKind := CXXConstructor, isImplicit := False,
            getAccess := AS_public, declContextIsNamespace := False \<rparr>"
  let ?u = "new_UsingIterator an_interpreter (using_base_ctor False)"
  have "GetDecl (cursor_in_using_base_ctor False) =
     (if isImplicit ?base then None
      else Some (FunctionDecl (findInheritingConstructor (ui_fInterp ?u) ?base
                   (base_ctor_shadow False))))"
    by (rule inherited_constructor_shadow [where rest = "[]"])
       (simp_all add: cursor_in_using_base_ctor_def initial_cursor_def new_UsingIterator_def
          using_base_ctor_def base_ctor_shadow_def isa_CXXConstructorDecl_def a_function_def)
  then show ?thesis
    by (simp add: new_UsingIterator_def an_interpreter_def a_function_def)
qed

text \<open>
  C4 as the claim states it fails: on the shadow of an implicit base constructor the
  current declaration is null, not the inheriting constructor.
\<close>

theorem implicit_base_constructor_resolves_to_null:
  "isConstructorUsingShadowDecl (base_ctor_shadow True)
   \<and> dyn_cast_CXXConstructorDecl (getTargetDecl (base_ctor_shadow True))
       = Some ((a_function ''Base'')\<lparr> getKind := CXXConstructor, isImplicit := True,
            getAccess := AS_public, declContextIsNamespace := False \<rparr>)
   \<and> fUsingIter (cursor_in_using_base_ctor True)
       = Some \<lparr> ui_fInterp = an_interpreter, ui_fIter = [base_ctor_shadow True] \<rparr>
   \<and> GetDecl (cursor_in_using_base_ctor True) = None
   \<and> GetDecl (cursor_in_using_base_ctor True)
       \<noteq> Some (FunctionDecl (findInheritingConstructor an_interpreter
            ((a_function ''Base'')\<lparr> getKind := CXXConstructor, isImplicit := True,
               getAccess := AS_public, declContextIsNamespace := False \<rparr>)
            (base_ctor_shadow True)))"
  by (simp add: GetDecl_def GetDeclSlow_def ui_not_def ui_deref_def
      dyn_cast_CXXConstructorDecl_def isa_CXXConstructorDecl_def cursor_in_using_base_ctor_def
      initial_cursor_def new_UsingIterator_def using_base_ctor_def base_ctor_shadow_def
      a_function_def)

section \<open>The snapshot: all or nothing\<close>

text \<open>
  The qualified name \<^verbatim>\<open>N::Color\<close> is split at its last colon; the enum found in
  \<^verbatim>\<open>N\<close> gets the namespace as its title.
\<close>

lemma find_enum_in_namespace:
  "find_enum database_with_N ''N::Color''
     = Some \<lparr> enum_GetName = ''Color'', enum_GetTitle = ''N'' \<rparr>"
  by (simp add: find_enum_def find_last_of_def substr_def size_t_sub_def npos_def
      database_with_N_def empty_database_def Let_def upt_rec)


text \<open>
  One name that fails stops the loop over the classes and the loop over the enums; the
  loop over the typedefs skips the names it cannot find and the types it does not store.
\<close>

lemma store_classes_unresolved:
  "n \<in> set names \<Longrightarrow> TClass_GetClass env n = None \<Longrightarrow>
     store_classes env names acc = None"
  by (induction names arbitrary: acc) (auto split: option.splits)

lemma store_classes_no_members:
  "n \<in> set names \<Longrightarrow> TClass_GetClass env n = Some cl \<Longrightarrow>
     GetListOfDataMembers cl = None \<Longrightarrow> store_classes env names acc = None"
  by (induction names arbitrary: acc) (auto split: option.splits)

lemma store_enums_unresolved:
  "n \<in> set names \<Longrightarrow> find_enum env n = None \<Longrightarrow> store_enums env names acc = None"
  by (induction names arbitrary: acc) (auto split: option.splits)

lemma store_typedefs_skips:
  "store_typedefs env names acc =
     acc @ map DataTypeObject
       (filter (\<lambda>dt. dt_GetType dt = - 1)
          (List.map_filter (ListOfTypes_FindObject env) names))"
  by (induction names arbitrary: acc) (auto simp: List.map_filter_simps split: option.splits)

text \<open>
  What the loops deliver: the loop over the data members, the loop over the classes and
  the loop over the enums, each with the exact condition under which it does not fail;
  and from them, when the writer returns true and what it writes.
\<close>

lemma data_members_supported_iff:
  "data_members_supported env normName cl dms \<longleftrightarrow>
     GetClassVersion cl = 0
     \<or> (\<forall>dm \<in> set dms. dm_IsPersistent dm \<longrightarrow> \<not> IsUnsupportedUniquePointer env normName dm)"
  by (induction dms) auto

lemma store_classes_result:
  "store_classes env names acc =
     (if \<forall>n \<in> set names. \<exists>cl dms. TClass_GetClass env n = Some cl
            \<and> GetListOfDataMembers cl = Some dms \<and> data_members_supported env n cl dms
      then Some (acc @ map TProtoClass
                   (filter (\<lambda>cl. \<not> IsLoaded cl)
                      (List.map_filter (TClass_GetClass env) names)))
      else None)"
proof (induction names arbitrary: acc)
  case Nil
  show ?case by (simp add: List.map_filter_simps)
next
  case (Cons n names)
  show ?case
  proof (cases "TClass_GetClass env n")
    case None
    then show ?thesis by simp
  next
    case (Some cl)
    show ?thesis
    proof (cases "GetListOfDataMembers cl")
      case None
      with Some show ?thesis by simp
    next
      case dms: (Some dms)
      show ?thesis
        using Some dms Cons.IH [of acc] Cons.IH [of "acc @ [TProtoClass cl]"]
        by (auto simp: List.map_filter_simps)
    qed
  qed
qed

lemma store_enums_result:
  "store_enums env names acc =
     (if \<forall>n \<in> set names. find_enum env n \<noteq> None
      then Some (acc @ map EnumObject (List.map_filter (find_enum env) names))
      else None)"
proof (induction names arbitrary: acc)
  case Nil
  show ?case by (simp add: List.map_filter_simps)
next
  case (Cons n names)
  show ?case
    using Cons.IH [of "acc @ [EnumObject (the (find_enum env n))]"]
    by (cases "find_enum env n") (simp_all add: List.map_filter_simps)
qed

lemma Close_returned_iff:
  "returned (CloseStreamerInfoROOTFile env g False) \<longleftrightarrow>
     (\<forall>n \<in> set (gClassesToStore g). \<exists>cl dms. TClass_GetClass env n = Some cl
          \<and> GetListOfDataMembers cl = Some dms \<and> data_members_supported env n cl dms)
     \<and> (\<forall>n \<in> set (gEnumsToStore g). find_enum env n \<noteq> None)
     \<and> \<not> IsZombie env"
  by (simp add: CloseStreamerInfoROOTFile_def Let_def store_classes_result store_enums_result)

lemma Close_written:
  "written (CloseStreamerInfoROOTFile env g False) =
     (if returned (CloseStreamerInfoROOTFile env g False) then
        [(''__ProtoClasses'', TObjArray
            (map TProtoClass
               (filter (\<lambda>cl. \<not> IsLoaded cl)
                  (List.map_filter (TClass_GetClass env) (gClassesToStore g))))),
         (''__Typedefs'', TObjArray
            (map DataTypeObject
               (filter (\<lambda>dt. dt_GetType dt = - 1)
                  (List.map_filter (ListOfTypes_FindObject env) (gTypedefsToStore g))))),
         (''__Enums'', TObjArray
            (map EnumObject (List.map_filter (find_enum env) (gEnumsToStore g)))),
         (''__AncestorPCMNames'', StringVector (gAncestorPCMNames g))]
      else [])"
  by (simp add: CloseStreamerInfoROOTFile_def Let_def store_classes_result store_enums_result
      store_typedefs_skips)


text \<open>
  C3, as the code has it. Without the write-empty flag \<open>CloseStreamerInfoROOTFile\<close>
  opens the file named by the global file name and either returns true after writing
  the three arrays \<^verbatim>\<open>__ProtoClasses\<close>, \<^verbatim>\<open>__Typedefs\<close>, \<^verbatim>\<open>__Enums\<close> and the
  list \<^verbatim>\<open>__AncestorPCMNames\<close>, or returns false having written nothing. It returns
  false whenever a class name cannot be resolved or its class has no list of data
  members, whenever an enum name cannot be resolved (its enum is not found, or the class
  of its namespace is not found or has no list of enums), and whenever the file could
  not be created. It returns true exactly when every class name resolves to a class
  with a list of data members that the loop over them accepts, every enum name
  resolves, and the file could be created; then the arrays hold the proto classes of
  the classes that are not loaded, the typedefs that are found and have type -1, and
  the enums, in the order of the names. A typedef name that cannot be resolved is no
  failure: the verdict does not depend on the list of typedef names at all, and the
  names that are not found are skipped.
\<close>

theorem CloseStreamerInfoROOTFile_all_or_nothing:
  "(returned (CloseStreamerInfoROOTFile env g False)
      \<and> (\<exists>protoClasses enums.
            written (CloseStreamerInfoROOTFile env g False) =
              [(''__ProtoClasses'', TObjArray protoClasses),
               (''__Typedefs'', TObjArray
                  (map DataTypeObject
                     (filter (\<lambda>dt. dt_GetType dt = - 1)
                        (List.map_filter (ListOfTypes_FindObject env) (gTypedefsToStore g))))),
               (''__Enums'', TObjArray enums),
               (''__AncestorPCMNames'', StringVector (gAncestorPCMNames g))])
    \<or> \<not> returned (CloseStreamerInfoROOTFile env g False)
      \<and> written (CloseStreamerInfoROOTFile env g False) = [])
   \<and> ((\<exists>n \<in> set (gClassesToStore g).
          TClass_GetClass env n = None
          \<or> (\<exists>cl. TClass_GetClass env n = Some cl \<and> GetListOfDataMembers cl = None))
        \<longrightarrow> \<not> returned (CloseStreamerInfoROOTFile env g False))
   \<and> ((\<exists>n \<in> set (gEnumsToStore g). find_enum env n = None)
        \<longrightarrow> \<not> returned (CloseStreamerInfoROOTFile env g False))
   \<and> (IsZombie env \<longrightarrow> \<not> returned (CloseStreamerInfoROOTFile env g False))
   \<and> (returned (CloseStreamerInfoROOTFile env g False) \<longleftrightarrow>
        (\<forall>n \<in> set (gClassesToStore g). \<exists>cl dms. TClass_GetClass env n = Some cl
            \<and> GetListOfDataMembers cl = Some dms \<and> data_members_supported env n cl dms)
        \<and> (\<forall>n \<in> set (gEnumsToStore g). find_enum env n \<noteq> None)
        \<and> \<not> IsZombie env)
   \<and> (returned (CloseStreamerInfoROOTFile env g False) \<longrightarrow>
        written (CloseStreamerInfoROOTFile env g False) =
          [(''__ProtoClasses'', TObjArray
              (map TProtoClass
                 (filter (\<lambda>cl. \<not> IsLoaded cl)
                    (List.map_filter (TClass_GetClass env) (gClassesToStore g))))),
           (''__Typedefs'', TObjArray
              (map DataTypeObject
                 (filter (\<lambda>dt. dt_GetType dt = - 1)
                    (List.map_filter (ListOfTypes_FindObject env) (gTypedefsToStore g))))),
           (''__Enums'', TObjArray
              (map EnumObject (List.map_filter (find_enum env) (gEnumsToStore g)))),
           (''__AncestorPCMNames'', StringVector (gAncestorPCMNames g))])
   \<and> opened (CloseStreamerInfoROOTFile env g False) = gPCMFilename g @ ''?filetype=pcm''
   \<and> returned (CloseStreamerInfoROOTFile env (g\<lparr>gTypedefsToStore := typedefNames\<rparr>) False)
       = returned (CloseStreamerInfoROOTFile env g False)"
proof -
  let ?r = "CloseStreamerInfoROOTFile env g False"
  note iff = Close_returned_iff [of env g]
  note wr = Close_written [of env g]
  have 1: "returned ?r
      \<and> (\<exists>protoClasses enums.
            written ?r =
              [(''__ProtoClasses'', TObjArray protoClasses),
               (''__Typedefs'', TObjArray
                  (map DataTypeObject
                     (filter (\<lambda>dt. dt_GetType dt = - 1)
                        (List.map_filter (ListOfTypes_FindObject env) (gTypedefsToStore g))))),
               (''__Enums'', TObjArray enums),
               (''__AncestorPCMNames'', StringVector (gAncestorPCMNames g))])
    \<or> \<not> returned ?r \<and> written ?r = []"
    using wr by (cases "returned ?r") simp_all
  have 2: "(\<exists>n \<in> set (gClassesToStore g).
          TClass_GetClass env n = None
          \<or> (\<exists>cl. TClass_GetClass env n = Some cl \<and> GetListOfDataMembers cl = None))
        \<longrightarrow> \<not> returned ?r"
    using iff by fastforce
  have 3: "(\<exists>n \<in> set (gEnumsToStore g). find_enum env n = None) \<longrightarrow> \<not> returned ?r"
    using iff by blast
  have 4: "IsZombie env \<longrightarrow> \<not> returned ?r"
    using iff by blast
  have 6: "returned ?r \<longrightarrow>
        written ?r =
          [(''__ProtoClasses'', TObjArray
              (map TProtoClass
                 (filter (\<lambda>cl. \<not> IsLoaded cl)
                    (List.map_filter (TClass_GetClass env) (gClassesToStore g))))),
           (''__Typedefs'', TObjArray
              (map DataTypeObject
                 (filter (\<lambda>dt. dt_GetType dt = - 1)
                    (List.map_filter (ListOfTypes_FindObject env) (gTypedefsToStore g))))),
           (''__Enums'', TObjArray
              (map EnumObject (List.map_filter (find_enum env) (gEnumsToStore g)))),
           (''__AncestorPCMNames'', StringVector (gAncestorPCMNames g))]"
    using wr by simp
  have 7: "opened ?r = gPCMFilename g @ ''?filetype=pcm''"
    by (simp add: CloseStreamerInfoROOTFile_def Let_def split: option.splits)
  have 8: "returned (CloseStreamerInfoROOTFile env (g\<lparr>gTypedefsToStore := typedefNames\<rparr>) False)
       = returned ?r"
    by (simp add: Close_returned_iff)
  from 1 2 3 4 iff 6 7 8 show ?thesis by (intro conjI)
qed

text \<open>
  The enum \<^verbatim>\<open>N::Shape\<close> does not exist: nothing is written, also not the enum
  \<^verbatim>\<open>N::Color\<close> named before it. With the enum \<^verbatim>\<open>N::Color\<close> alone and a typedef
  name that is not found, the writer returns true and writes the four records.
\<close>

theorem CloseStreamerInfoROOTFile_all_or_nothing_witness:
  "find_enum database_with_N ''N::Shape'' = None
   \<and> \<not> returned (CloseStreamerInfoROOTFile database_with_N
                    (no_names\<lparr>gEnumsToStore := [''N::Color'', ''N::Shape'']\<rparr>) False)
   \<and> written (CloseStreamerInfoROOTFile database_with_N
                 (no_names\<lparr>gEnumsToStore := [''N::Color'', ''N::Shape'']\<rparr>) False) = []
   \<and> ListOfTypes_FindObject database_with_N ''ghost_t'' = None
   \<and> returned (CloseStreamerInfoROOTFile database_with_N
                  (no_names\<lparr>gTypedefsToStore := [''ghost_t''],
                             gEnumsToStore := [''N::Color'']\<rparr>) False)
   \<and> written (CloseStreamerInfoROOTFile database_with_N
                 (no_names\<lparr>gTypedefsToStore := [''ghost_t''],
                            gEnumsToStore := [''N::Color'']\<rparr>) False)
       = [(''__ProtoClasses'', TObjArray []), (''__Typedefs'', TObjArray []),
          (''__Enums'', TObjArray
             [EnumObject \<lparr> enum_GetName = ''Color'', enum_GetTitle = ''N'' \<rparr>]),
          (''__AncestorPCMNames'', StringVector [])]"
proof -
  let ?g = "no_names\<lparr>gEnumsToStore := [''N::Color'', ''N::Shape'']\<rparr>"
  let ?k = "no_names\<lparr>gTypedefsToStore := [''ghost_t''], gEnumsToStore := [''N::Color'']\<rparr>"
  have h: "find_enum database_with_N ''N::Shape'' = None"
    by (simp add: find_enum_def find_last_of_def substr_def size_t_sub_def npos_def
        database_with_N_def empty_database_def Let_def upt_rec)
  then have e: "\<exists>n \<in> set (gEnumsToStore ?g). find_enum database_with_N n = None"
    by simp
  note T = CloseStreamerInfoROOTFile_all_or_nothing [of database_with_N ?g]
  from T e have r: "\<not> returned (CloseStreamerInfoROOTFile database_with_N ?g False)"
    by blast
  with T have w: "written (CloseStreamerInfoROOTFile database_with_N ?g False) = []"
    by blast
  have t: "ListOfTypes_FindObject database_with_N ''ghost_t'' = None"
    by (simp add: database_with_N_def empty_database_def)
  note K = CloseStreamerInfoROOTFile_all_or_nothing [of database_with_N ?k]
  have c: "(\<forall>n \<in> set (gClassesToStore ?k). \<exists>cl dms. TClass_GetClass database_with_N n = Some cl
            \<and> GetListOfDataMembers cl = Some dms
            \<and> data_members_supported database_with_N n cl dms)
        \<and> (\<forall>n \<in> set (gEnumsToStore ?k). find_enum database_with_N n \<noteq> None)
        \<and> \<not> IsZombie database_with_N"
    using find_enum_in_namespace
    by (simp add: no_names_def database_with_N_def empty_database_def)
  with K have s: "returned (CloseStreamerInfoROOTFile database_with_N ?k False)"
    by blast
  with K have "written (CloseStreamerInfoROOTFile database_with_N ?k False) =
          [(''__ProtoClasses'', TObjArray
              (map TProtoClass
                 (filter (\<lambda>cl. \<not> IsLoaded cl)
                    (List.map_filter (TClass_GetClass database_with_N) (gClassesToStore ?k))))),
           (''__Typedefs'', TObjArray
              (map DataTypeObject
                 (filter (\<lambda>dt. dt_GetType dt = - 1)
                    (List.map_filter (ListOfTypes_FindObject database_with_N)
                       (gTypedefsToStore ?k))))),
           (''__Enums'', TObjArray
              (map EnumObject (List.map_filter (find_enum database_with_N) (gEnumsToStore ?k)))),
           (''__AncestorPCMNames'', StringVector (gAncestorPCMNames ?k))]"
    by blast
  then have v: "written (CloseStreamerInfoROOTFile database_with_N ?k False)
       = [(''__ProtoClasses'', TObjArray []), (''__Typedefs'', TObjArray []),
          (''__Enums'', TObjArray
             [EnumObject \<lparr> enum_GetName = ''Color'', enum_GetTitle = ''N'' \<rparr>]),
          (''__AncestorPCMNames'', StringVector [])]"
    using t find_enum_in_namespace by (simp add: List.map_filter_simps no_names_def)
  from h r w t s v show ?thesis by (intro conjI)
qed

text \<open>
  C3 as the claim states it fails: the typedef \<^verbatim>\<open>ghost_t\<close> cannot be resolved, and
  the writer returns true and writes the four records.
\<close>

theorem unresolved_typedef_is_skipped:
  "''ghost_t'' \<in> set (gTypedefsToStore (no_names\<lparr>gTypedefsToStore := [''ghost_t'']\<rparr>))
   \<and> ListOfTypes_FindObject empty_database ''ghost_t'' = None
   \<and> returned (CloseStreamerInfoROOTFile empty_database
                  (no_names\<lparr>gTypedefsToStore := [''ghost_t'']\<rparr>) False)
   \<and> written (CloseStreamerInfoROOTFile empty_database
                 (no_names\<lparr>gTypedefsToStore := [''ghost_t'']\<rparr>) False)
       = [(''__ProtoClasses'', TObjArray []), (''__Typedefs'', TObjArray []),
          (''__Enums'', TObjArray []), (''__AncestorPCMNames'', StringVector [])]"
  by (simp add: CloseStreamerInfoROOTFile_def Let_def empty_database_def no_names_def)

section \<open>Queries on a cursor without a current declaration\<close>

text \<open>
  \<open>Next\<close> keeps a cursor consistent, and a consistent cursor on which \<open>Next\<close> returns
  0 has no current declaration.
\<close>

lemma advance_in_place:
  assumes "using_active c \<longrightarrow> fIter c \<noteq> []"
  shows "(advance c = Return r c' \<longrightarrow> (using_active c' \<longrightarrow> fIter c' \<noteq> []))
       \<and> (advance c = Fallthrough c' \<longrightarrow> (using_active c' \<longrightarrow> fIter c' \<noteq> []))"
  using assms
  by (auto simp: advance_def using_active_def Let_def split: if_splits option.splits)

lemma fix_context_using:
  "fix_context c = Return r c' \<Longrightarrow> fIter c = [] \<and> fUsingIter c' = fUsingIter c"
proof (induction c rule: fix_context.induct)
  case (1 c)
  show ?case
  proof (cases "fIter c \<noteq> []")
    case True
    with "1.prems" show ?thesis by (simp add: fix_context.simps)
  next
    case False
    let ?c' = "c\<lparr>fContextIdx := fContextIdx c + 1\<rparr>"
    show ?thesis
    proof (cases "length (fContexts c) \<le> fContextIdx c + 1")
      case True
      with False "1.prems" have "c' = ?c'"
        by (subst (asm) fix_context.simps) (auto simp: Let_def)
      with False show ?thesis by simp
    next
      case lt: False
      let ?c'' = "?c'\<lparr>fIter := fContexts ?c' ! fContextIdx ?c'\<rparr>"
      from False "1.prems" lt have "fix_context ?c'' = Return r c'"
        by (subst (asm) fix_context.simps) (simp add: Let_def)
      from "1.IH" [OF _ refl _ this] False lt show ?thesis by simp
    qed
  qed
qed

lemma classify_in_place:
  "fIter c \<noteq> [] \<Longrightarrow>
     (classify c = Return r c' \<longrightarrow> fIter c' \<noteq> [])
     \<and> (classify c = Fallthrough c' \<longrightarrow> fIter c' \<noteq> [])"
  by (cases "fIter c")
     (auto simp: classify_def Let_def GetOrInstantiateFuncTemplateWithDefaults_def
           split: decl.splits if_splits)

lemma InternalNext_loop_in_place:
  "using_active c \<longrightarrow> fIter c \<noteq> [] \<Longrightarrow> InternalNext_loop c = (r, c') \<Longrightarrow>
     (using_active c' \<longrightarrow> fIter c' \<noteq> []) \<and> (r = 0 \<longrightarrow> \<not> using_active c')"
proof (induction c arbitrary: r c' rule: InternalNext_loop.induct)
  case (1 c)
  let ?c1 = "c\<lparr>fTemplateSpec := None\<rparr>"
  have p1: "using_active ?c1 \<longrightarrow> fIter ?c1 \<noteq> []"
    using "1.prems"(1) by (simp add: using_active_def)
  show ?case
  proof (cases "advance ?c1")
    case (Return r1 c1')
    with "1.prems" have "r = r1" "c' = c1'" by (simp_all add: InternalNext_loop.simps [of c])
    with advance_in_place [OF p1, of r1 c1'] advance_Return [OF Return] Return
    show ?thesis by simp
  next
    case a: (Fallthrough c2)
    from advance_in_place [OF p1, of 0 c2] a
    have p2: "using_active c2 \<longrightarrow> fIter c2 \<noteq> []" by simp
    show ?thesis
    proof (cases "fix_context c2")
      case (Return r2 c2')
      with a "1.prems" have "r = r2" "c' = c2'" by (simp_all add: InternalNext_loop.simps [of c])
      with fix_context_using [OF Return] fix_context_Return [OF Return] p2
      show ?thesis by (simp add: using_active_def)
    next
      case f: (Fallthrough c3)
      have n3: "fIter c3 \<noteq> []" using fix_context_ahead [OF f] by simp
      show ?thesis
      proof (cases "classify c3")
        case (Return r3 c3')
        with a f "1.prems" have "r = r3" "c' = c3'"
          by (simp_all add: InternalNext_loop.simps [of c])
        moreover have "r3 = 1"
          using Return by (cases "fIter c3")
            (auto simp: classify_def Let_def split: decl.splits if_splits)
        ultimately show ?thesis using classify_in_place [OF n3, of r3 c3'] Return by simp
      next
        case k: (Fallthrough c4)
        with a f "1.prems" have l: "InternalNext_loop c4 = (r, c')"
          by (simp add: InternalNext_loop.simps [of c])
        have "using_active c4 \<longrightarrow> fIter c4 \<noteq> []"
          using classify_in_place [OF n3, of 0 c4] k by simp
        from "1.IH" [OF a f k this l] show ?thesis .
      qed
    qed
  qed
qed

lemma Next_consistent:
  assumes c: "consistent c" and n: "Next c = Inr (r, c')"
  shows "consistent c' \<and> (r = 0 \<longrightarrow> \<not> IsValid c')"
proof (cases "\<not> fFirstTime c \<and> fIter c = []")
  case True
  with n have "c' = c\<lparr>fNameCache := []\<rparr>" "fDecl c = None"
    by (auto simp: Next_def InternalNext_def Let_def split: if_splits)
  with c True show ?thesis
    by (auto simp: consistent_def using_active_def IsValid_def GetDecl_def GetDeclSlow_def
        ui_not_def ui_bool_def split: option.splits)
next
  case False
  with n have d: "fDecl c = None"
    and l: "InternalNext_loop (c\<lparr>fNameCache := []\<rparr>) = (r, c')"
    by (auto simp: Next_def InternalNext_def Let_def split: if_splits)
  have "using_active (c\<lparr>fNameCache := []\<rparr>) \<longrightarrow> fIter (c\<lparr>fNameCache := []\<rparr>) \<noteq> []"
    using c by (simp add: consistent_def using_active_def)
  from InternalNext_loop_in_place [OF this l] InternalNext_loop_result [OF l] d
  show ?thesis
    by (auto simp: consistent_def using_active_def IsValid_def GetDecl_def GetDeclSlow_def
        ui_not_def ui_bool_def split: option.splits)
qed

lemma constructor_consistent:
  assumes "TClingMethodInfo_of_class interp ci = Inr c"
  shows "consistent c"
proof -
  have i: "consistent (initial_cursor interp None)"
    by (simp add: consistent_def using_active_def initial_cursor_def)
  show ?thesis
  proof (cases "\<exists>k. ci = Some k \<and> ci_IsValid k")
    case False
    with assms have "c = initial_cursor interp None"
      by (auto simp: TClingMethodInfo_of_class_def split: option.splits if_splits)
    with i show ?thesis by simp
  next
    case True
    then obtain k where k: "ci = Some k" "ci_IsValid k" by blast
    let ?c0 = "(initial_cursor interp None)
                 \<lparr>fContexts := ci_collectAllContexts k, fIter := ci_decls k\<rparr>"
    from assms k obtain r c1 where n: "Next ?c0 = Inr (r, c1)" and c: "c = c1\<lparr>fFirstTime := True\<rparr>"
      by (auto simp: TClingMethodInfo_of_class_def Next_def split: sum.splits)
    have "consistent ?c0"
      by (simp add: consistent_def using_active_def initial_cursor_def)
    from Next_consistent [OF this n] c show ?thesis
      by (simp add: consistent_def using_active_def)
  qed
qed

text \<open>
  C5. On a cursor that is not valid, that is, a cursor with no current declaration (it
  was built from an invalid scope, or its shadow position resolves to null), and on a
  cursor that a consistent cursor becomes when \<open>Next\<close> returns 0 (an exhausted cursor),
  every query returns its fixed value and none stops the program: \<open>NArg\<close> and
  \<open>NDefaultArg\<close> return -1, \<open>Property\<close> and \<open>ExtraProperty\<close> the empty mask,
  \<open>GetMangledName\<close> the empty string, \<open>Type\<close> the null type.
\<close>

theorem invalid_cursor_queries:
  assumes "\<not> IsValid c \<or> consistent c0 \<and> Next c0 = Inr (0, c)"
  shows "NArg c = Inr (- 1) \<and> NDefaultArg c = Inr (- 1)
     \<and> Property c = Inr {} \<and> ExtraProperty c = Inr {}
     \<and> GetMangledName maybeMangleDeclName c = Inr [] \<and> Type ti c = Inr None"
proof -
  from assms have "\<not> IsValid c" using Next_consistent [of c0 0 c] by blast
  then show ?thesis
    by (simp add: NArg_def NDefaultArg_def Property_def ExtraProperty_def GetMangledName_def
        Type_def)
qed

text \<open>
  The cursor on the last function of its scope is consistent; after the \<open>Next\<close> that
  returns 0 every query gives its fixed value.
\<close>

theorem invalid_cursor_queries_witness:
  "consistent cursor_on_last_function
   \<and> Next cursor_on_last_function
       = Inr (0, cursor_on_last_function\<lparr>fContextIdx := 1, fIter := []\<rparr>)
   \<and> NArg (cursor_on_last_function\<lparr>fContextIdx := 1, fIter := []\<rparr>) = Inr (- 1)
   \<and> NDefaultArg (cursor_on_last_function\<lparr>fContextIdx := 1, fIter := []\<rparr>) = Inr (- 1)
   \<and> Property (cursor_on_last_function\<lparr>fContextIdx := 1, fIter := []\<rparr>) = Inr {}
   \<and> ExtraProperty (cursor_on_last_function\<lparr>fContextIdx := 1, fIter := []\<rparr>) = Inr {}
   \<and> GetMangledName (\<lambda>GD. ''_Z1fv'')
         (cursor_on_last_function\<lparr>fContextIdx := 1, fIter := []\<rparr>) = Inr []
   \<and> Type (Some (NamedType False ''int''))
         (cursor_on_last_function\<lparr>fContextIdx := 1, fIter := []\<rparr>) = Inr None"
proof -
  let ?c = "cursor_on_last_function\<lparr>fContextIdx := 1, fIter := []\<rparr>"
  have k: "consistent cursor_on_last_function"
    by (simp add: consistent_def using_active_def cursor_on_last_function_def
        initial_cursor_def)
  have n: "Next cursor_on_last_function = Inr (0, ?c)"
    by (simp add: run_Next cursor_on_last_function_def)
  from k n have h: "\<not> IsValid ?c \<or> consistent cursor_on_last_function
      \<and> Next cursor_on_last_function = Inr (0, ?c)"
    by blast
  from invalid_cursor_queries [OF h, of "\<lambda>GD. ''_Z1fv''" "Some (NamedType False ''int'')"] k n
  show ?thesis by blast
qed

end
